theory Spec2Isabelle
  imports Main "HOL-Library.Sublist"
begin

section \<open>Values exchanged with the printers\<close>

text \<open>
  \<^verbatim>\<open>response.json()\<close> yields an arbitrary JSON document, and the logger inspects its
  shape at run time (\<^verbatim>\<open>isinstance(history, list)\<close>, \<^verbatim>\<open>isinstance(job, dict)\<close>,
  \<^verbatim>\<open>isinstance(response, str)\<close>). The Python values are therefore modelled as a
  datatype. \<open>JNull\<close> is Python's \<^verbatim>\<open>None\<close>. A dictionary is an association list read
  with \<open>map_of\<close>. Numbers are integers: a float behaves as an integer does at every
  point below (it is hashable, it is no string, it has no \<^verbatim>\<open>replace\<close>), only its
  printed form differs, and that is left to \<open>str_of\<close>.
\<close>

datatype json =
    JNull
  | JBool bool
  | JInt int
  | JStr string
  | JList "json list"
  | JDict "(string \<times> json) list"

text \<open>Python truthiness, as used by \<^verbatim>\<open>if not material_guid\<close>, \<^verbatim>\<open>if job.get(...)\<close>.\<close>

fun truthy :: "json \<Rightarrow> bool" where
  "truthy JNull = False"
| "truthy (JBool b) = b"
| "truthy (JInt i) = (i \<noteq> 0)"
| "truthy (JStr s) = (s \<noteq> [])"
| "truthy (JList xs) = (xs \<noteq> [])"
| "truthy (JDict d) = (d \<noteq> [])"

text \<open>\<^verbatim>\<open>x in some_set\<close> hashes \<open>x\<close> first; lists and dictionaries raise TypeError.\<close>

fun hashable :: "json \<Rightarrow> bool" where
  "hashable (JList xs) = False"
| "hashable (JDict d) = False"
| "hashable v = True"

text \<open>\<^verbatim>\<open>d.get(key, default)\<close>; \<^verbatim>\<open>d.get(key)\<close> is \<open>dict_get d key JNull\<close>.\<close>

definition dict_get :: "(string \<times> json) list \<Rightarrow> string \<Rightarrow> json \<Rightarrow> json" where
  "dict_get d k dflt = (case map_of d k of None \<Rightarrow> dflt | Some v \<Rightarrow> v)"

text \<open>\<^verbatim>\<open>s.replace("Z", "+00:00")\<close>.\<close>

definition replace_Z :: "string \<Rightarrow> string" where
  "replace_Z s = concat (map (\<lambda>c. if c = CHR ''Z'' then ''+00:00'' else [c]) s)"

text \<open>
  A character of a HOL string stands for the Python character with the same code, so
  the strings of the model are the Python strings of characters below 256, and
  \<open>length\<close> is \<^verbatim>\<open>len\<close>.

  \<^verbatim>\<open>str.strip()\<close>: leading and trailing white space removed. The white space is the
  characters below 256 for which \<^verbatim>\<open>str.isspace\<close> holds.
\<close>

definition is_space :: "char \<Rightarrow> bool" where
  "is_space c = (c \<in> set [CHR 0x09, CHR 0x0A, CHR 0x0B, CHR 0x0C, CHR 0x0D,
                           CHR 0x1C, CHR 0x1D, CHR 0x1E, CHR 0x1F, CHR 0x20,
                           CHR 0x85, CHR 0xA0])"

definition strip :: "string \<Rightarrow> string" where
  "strip s = rev (dropWhile is_space (rev (dropWhile is_space s)))"

text \<open>
  \<^verbatim>\<open>max(0, x)\<close>: \<open>x\<close> when \<open>x > 0\<close>, else the first argument. A Boolean compares as 0 or 1;
  \<^verbatim>\<open>None\<close>, strings, lists and dictionaries do not compare with an integer (TypeError,
  \<open>None\<close> here).
\<close>

fun max0 :: "json \<Rightarrow> json option" where
  "max0 (JInt i) = Some (if i > 0 then JInt i else JInt 0)"
| "max0 (JBool b) = Some (if b then JBool True else JInt 0)"
| "max0 v = None"

datatype py_error = TypeError | AttributeError

section \<open>The outside world\<close>

text \<open>
  The three URLs the logger requests: \<^verbatim>\<open>system\<close>,
  \<^verbatim>\<open>history/print_jobs?offset={offset}&count={count}\<close> and
  \<^verbatim>\<open>materials/{material_guid}\<close>.
\<close>

datatype endpoint = System | History nat nat | Materials json

text \<open>
  What \<^verbatim>\<open>session.get\<close>, \<^verbatim>\<open>raise_for_status\<close> and \<^verbatim>\<open>response.json()\<close> do for one URL:
  a \<^verbatim>\<open>RequestException\<close> (after the session's retries), or the decoded body.
\<close>

datatype http_result = RequestException | Body json

text \<open>
  \<^verbatim>\<open>root.find(".//{http://www.ultimaker.com/material}material")\<close> on the parsed document:
  \<^verbatim>\<open>ET.fromstring\<close> raised ParseError, the element is absent, or it is there with
  its \<^verbatim>\<open>text\<close> (\<open>None\<close> for an element without text, as in ElementTree).
\<close>

datatype xml_lookup = ParseError | NoElement | Element "string option"

text \<open>A \<^verbatim>\<open>datetime\<close> object: civil date and time, and the UTC offset in minutes if aware.\<close>

record datetime =
  year :: nat
  month :: nat
  day :: nat
  hour :: nat
  minute :: nat
  second :: nat
  utcoffset :: "int option"

text \<open>How opening and writing the CSV file goes: the n-th row written fails for \<open>WriteFails n\<close>.\<close>

datatype disk_behaviour = DiskOk | OpenFails | WriteFails nat

text \<open>
  How the spreadsheet behaves: authorising or opening the sheet fails, or the
  \<^verbatim>\<open>append_rows\<close> of batch number n (from 0) fails.
\<close>

datatype sheets_behaviour = SheetsOk | AuthFails | AppendFails nat

text \<open>
  Everything the logger calls and does not define: the devices (their answers are a
  function of address and URL for the time of a run), \<^verbatim>\<open>datetime.fromisoformat\<close>
  (\<open>None\<close>: ValueError), \<^verbatim>\<open>dt.date().isoformat()\<close>,
  \<^verbatim>\<open>dt.astimezone(pst_timezone).isoformat()\<close> (\<open>None\<close>: it raised), the XML library,
  \<^verbatim>\<open>str()\<close> of a value that is neither a string nor \<^verbatim>\<open>None\<close> (what the csv module
  writes for it), the disk and the spreadsheet.
\<close>

record world =
  http :: "string \<Rightarrow> endpoint \<Rightarrow> http_result"
  fromisoformat :: "string \<Rightarrow> datetime option"
  date_isoformat :: "datetime \<Rightarrow> string"
  astimezone_isoformat :: "datetime \<Rightarrow> string option"
  xml_find_material :: "string \<Rightarrow> xml_lookup"
  str_of :: "json \<Rightarrow> string"
  disk :: disk_behaviour
  sheets :: sheets_behaviour

definition BATCH_SIZE :: nat where
  "BATCH_SIZE = 50"

section \<open>PrinterAPI\<close>

text \<open>A printer object: \<open>ip\<close> and the cached \<^verbatim>\<open>_name\<close> (\<open>JNull\<close> while it is \<^verbatim>\<open>None\<close>).\<close>

record printer =
  ip :: string
  cached_name :: json

type_synonym request = "string \<times> endpoint"

text \<open>
  \<^verbatim>\<open>make_request\<close>: the decoded body, or \<^verbatim>\<open>{}\<close> on a RequestException. The list of
  requests issued so far is threaded through, to observe which requests a call makes.
\<close>

definition make_request :: "world \<Rightarrow> string \<Rightarrow> endpoint \<Rightarrow> request list \<Rightarrow> json \<times> request list" where
  "make_request w addr ep rs =
     ((case http w addr ep of RequestException \<Rightarrow> JDict [] | Body j \<Rightarrow> j), rs @ [(addr, ep)])"

text \<open>The \<^verbatim>\<open>name\<close> property: resolved on first use, cached unless the answer is \<^verbatim>\<open>None\<close>.\<close>

definition PrinterAPI_name :: "world \<Rightarrow> printer \<Rightarrow> request list \<Rightarrow> json \<times> printer \<times> request list" where
  "PrinterAPI_name w p rs =
     (if cached_name p = JNull then
        (let (response, rs') = make_request w (ip p) System rs;
             n = (case response of
                    JDict d \<Rightarrow> dict_get d ''name'' (JStr (''Printer-'' @ ip p))
                  | _ \<Rightarrow> JStr (''Printer-'' @ ip p))
         in (n, p\<lparr>cached_name := n\<rparr>, rs'))
      else (cached_name p, p, rs))"

text \<open>
  \<^verbatim>\<open>get_material_name\<close>. The two handlers catch ParseError and RequestException only:
  \<^verbatim>\<open>material_element.text.strip()\<close> on an element without text raises AttributeError,
  which leaves the function.
\<close>

definition get_material_name ::
  "world \<Rightarrow> printer \<Rightarrow> json \<Rightarrow> request list \<Rightarrow> (py_error + string) \<times> request list" where
  "get_material_name w p material_guid rs =
     (if \<not> truthy material_guid then (Inr ''Unknown'', rs)
      else
        (let (response, rs') = make_request w (ip p) (Materials material_guid) rs
         in (case response of
               JStr s \<Rightarrow>
                 (case xml_find_material w s of
                    ParseError \<Rightarrow> (Inr ''Unknown'', rs')
                  | NoElement \<Rightarrow> (Inr ''Unknown'', rs')
                  | Element None \<Rightarrow> (Inl AttributeError, rs')
                  | Element (Some t) \<Rightarrow> (Inr (strip t), rs'))
             | _ \<Rightarrow> (Inr ''Unknown'', rs'))))"

section \<open>The job normalizer\<close>

text \<open>The dictionary \<^verbatim>\<open>_process_print_job\<close> returns, one field per key.\<close>

record job_record =
  uuid :: json
  printer_name :: json
  date :: string
  datetime_started :: json
  datetime_finished :: json
  name :: json
  result :: json
  time_total :: json
  material_0_amount :: json
  material_1_amount :: json
  material_0_name :: string
  material_1_name :: string

text \<open>
  \<^verbatim>\<open>_convert_to_pst\<close>: the empty string for a falsy argument; the converted time; and
  the argument itself whenever the \<^verbatim>\<open>try\<close> block raises (a value without
  \<^verbatim>\<open>replace\<close>, a string \<^verbatim>\<open>fromisoformat\<close> rejects, a conversion that overflows).
\<close>

definition convert_to_pst :: "world \<Rightarrow> json \<Rightarrow> json" where
  "convert_to_pst w iso_timestamp =
     (if \<not> truthy iso_timestamp then JStr []
      else (case iso_timestamp of
              JStr s \<Rightarrow>
                (case fromisoformat w (replace_Z s) of
                   None \<Rightarrow> iso_timestamp
                 | Some utc_time \<Rightarrow>
                     (case astimezone_isoformat w utc_time of
                        None \<Rightarrow> iso_timestamp
                      | Some t \<Rightarrow> JStr t))
            | _ \<Rightarrow> iso_timestamp))"

text \<open>
  The first statement of the \<^verbatim>\<open>try\<close> block of \<^verbatim>\<open>_process_print_job\<close>:
  \<^verbatim>\<open>start_date\<close>, or \<open>None\<close> when it raises (AttributeError for a truthy value that
  is no string, ValueError from \<^verbatim>\<open>fromisoformat\<close>).
\<close>

definition start_date :: "world \<Rightarrow> (string \<times> json) list \<Rightarrow> string option" where
  "start_date w job =
     (if truthy (dict_get job ''datetime_started'' JNull) then
        (case dict_get job ''datetime_started'' (JStr []) of
           JStr s \<Rightarrow>
             (case fromisoformat w (replace_Z s) of
                None \<Rightarrow> None
              | Some dt \<Rightarrow> Some (date_isoformat w dt))
         | _ \<Rightarrow> None)
      else Some [])"

text \<open>
  \<^verbatim>\<open>_process_print_job\<close>, for a job that is a dictionary (its caller checks that).
  The fields are computed in the order of the dictionary display; any exception in
  the \<^verbatim>\<open>try\<close> block gives \<open>None\<close>, the requests issued before it stay issued.
\<close>

definition process_print_job ::
  "world \<Rightarrow> printer \<Rightarrow> (string \<times> json) list \<Rightarrow> request list
     \<Rightarrow> job_record option \<times> printer \<times> request list" where
  "process_print_job w p job rs =
     (if dict_get job ''result'' JNull \<notin> set [JStr ''Finished'', JStr ''Aborted'']
      then (None, p, rs)
      else
        (case start_date w job of
           None \<Rightarrow> (None, p, rs)
         | Some sd \<Rightarrow>
             (let (pname, p1, rs1) = PrinterAPI_name w p rs in
              case max0 (dict_get job ''material_0_amount'' (JInt 0)) of
                None \<Rightarrow> (None, p1, rs1)
              | Some a0 \<Rightarrow>
                  (case max0 (dict_get job ''material_1_amount'' (JInt 0)) of
                     None \<Rightarrow> (None, p1, rs1)
                   | Some a1 \<Rightarrow>
                       (case get_material_name w p1 (dict_get job ''material_0_guid'' (JStr [])) rs1 of
                          (Inl e, rs2) \<Rightarrow> (None, p1, rs2)
                        | (Inr m0, rs2) \<Rightarrow>
                            (case get_material_name w p1 (dict_get job ''material_1_guid'' (JStr [])) rs2 of
                               (Inl e, rs3) \<Rightarrow> (None, p1, rs3)
                             | (Inr m1, rs3) \<Rightarrow>
                                 (Some \<lparr>uuid = dict_get job ''uuid'' (JStr []),
                                        printer_name = pname,
                                        date = sd,
                                        datetime_started =
                                          convert_to_pst w (dict_get job ''datetime_started'' (JStr [])),
                                        datetime_finished =
                                          convert_to_pst w (dict_get job ''datetime_finished'' (JStr [])),
                                        name = dict_get job ''name'' (JStr []),
                                        result = dict_get job ''result'' (JStr []),
                                        time_total = dict_get job ''time_total'' (JInt 0),
                                        material_0_amount = a0,
                                        material_1_amount = a1,
                                        material_0_name = m0,
                                        material_1_name = m1\<rparr>,
                                  p1, rs3)))))))"

section \<open>The sweep over the printers\<close>

text \<open>
  What a run accumulates: \<^verbatim>\<open>all_print_jobs\<close>, and two observations of the run, the
  records \<^verbatim>\<open>_process_print_job\<close> returned in the order met and the requests issued.
\<close>

record run_state =
  all_print_jobs :: "job_record list"
  normalized :: "job_record list"
  requests :: "request list"

text \<open>
  \<^verbatim>\<open>job.get('uuid') not in self.existing_uuids\<close>: the set holds strings, so only a
  string can be a member.
\<close>

definition in_uuids :: "json \<Rightarrow> string set \<Rightarrow> bool" where
  "in_uuids v S = (case v of JStr s \<Rightarrow> s \<in> S | _ \<Rightarrow> False)"

text \<open>
  The \<^verbatim>\<open>for job in history\<close> loop. The membership test is evaluated only for a
  record that was produced, and raises TypeError for an unhashable uuid; nothing in
  \<^verbatim>\<open>collect_logs\<close> catches it.
\<close>

fun process_jobs ::
  "world \<Rightarrow> string set \<Rightarrow> printer \<Rightarrow> json list \<Rightarrow> run_state \<Rightarrow> py_error + printer \<times> run_state" where
  "process_jobs w existing_uuids p [] s = Inr (p, s)"
| "process_jobs w existing_uuids p (job # history) s =
     (case job of
        JDict d \<Rightarrow>
          (case process_print_job w p d (requests s) of
             (None, p', rs') \<Rightarrow> process_jobs w existing_uuids p' history (s\<lparr>requests := rs'\<rparr>)
           | (Some processed_job, p', rs') \<Rightarrow>
               (if \<not> hashable (dict_get d ''uuid'' JNull) then Inl TypeError
                else if \<not> in_uuids (dict_get d ''uuid'' JNull) existing_uuids
                then process_jobs w existing_uuids p' history
                       (s\<lparr>all_print_jobs := all_print_jobs s @ [processed_job],
                          normalized := normalized s @ [processed_job],
                          requests := rs'\<rparr>)
                else process_jobs w existing_uuids p' history
                       (s\<lparr>normalized := normalized s @ [processed_job], requests := rs'\<rparr>)))
      | _ \<Rightarrow> process_jobs w existing_uuids p history s)"

text \<open>
  The \<^verbatim>\<open>while True\<close> loop for one printer. It need not end (a device may answer every
  offset with a full page), so it is a partial function: \<open>None\<close> is a loop that runs
  forever, \<open>Some (Inl e)\<close> an exception, \<open>Some (Inr _)\<close> a normal exit.
\<close>

partial_function (option) page_loop ::
  "world \<Rightarrow> string set \<Rightarrow> printer \<Rightarrow> nat \<Rightarrow> run_state \<Rightarrow> (py_error + printer \<times> run_state) option" where
  "page_loop w existing_uuids p offset s =
     (case make_request w (ip p) (History offset BATCH_SIZE) (requests s) of
        (JList history, rs') \<Rightarrow>
          (case process_jobs w existing_uuids p history (s\<lparr>requests := rs'\<rparr>) of
             Inl e \<Rightarrow> Some (Inl e)
           | Inr (p', s') \<Rightarrow>
               if length history < BATCH_SIZE then Some (Inr (p', s'))
               else page_loop w existing_uuids p' (offset + BATCH_SIZE) s')
      | (_, rs') \<Rightarrow> Some (Inr (p, s\<lparr>requests := rs'\<rparr>)))"

text \<open>One iteration of \<^verbatim>\<open>for printer in self.printers\<close>.\<close>

definition collect_printer ::
  "world \<Rightarrow> string set \<Rightarrow> printer \<Rightarrow> run_state \<Rightarrow> (py_error + printer \<times> run_state) option" where
  "collect_printer w existing_uuids p s =
     (case PrinterAPI_name w p (requests s) of
        (pname, p1, rs1) \<Rightarrow> page_loop w existing_uuids p1 0 (s\<lparr>requests := rs1\<rparr>))"

fun sweep :: "world \<Rightarrow> string set \<Rightarrow> printer list \<Rightarrow> run_state \<Rightarrow> (py_error + run_state) option" where
  "sweep w existing_uuids [] s = Some (Inr s)"
| "sweep w existing_uuids (p # printers) s =
     (case collect_printer w existing_uuids p s of
        None \<Rightarrow> None
      | Some (Inl e) \<Rightarrow> Some (Inl e)
      | Some (Inr (p', s')) \<Rightarrow> sweep w existing_uuids printers s')"


section \<open>The durable sink\<close>

text \<open>
  The log file is modelled by the rows the csv writer was given for it, each a list of
  cells, the header row included. \<open>None\<close> is a file that does not exist. What the
  csv reader makes of the file is \<open>csv_reader\<close> below: the cells do not all come
  back as they were written.
\<close>

type_synonym csv_rows = "string list list"

definition fieldnames :: "string list" where
  "fieldnames = [''uuid'', ''printer_name'', ''date'', ''datetime_started'', ''datetime_finished'',
                 ''name'', ''result'', ''time_total'', ''material_0_amount'',
                 ''material_1_amount'', ''material_0_name'', ''material_1_name'']"

text \<open>What the csv writer puts in a cell: nothing for \<^verbatim>\<open>None\<close>, a string as it is, \<^verbatim>\<open>str()\<close> otherwise.\<close>

definition cell :: "world \<Rightarrow> json \<Rightarrow> string" where
  "cell w v = (case v of JNull \<Rightarrow> [] | JStr s \<Rightarrow> s | _ \<Rightarrow> str_of w v)"

text \<open>\<^verbatim>\<open>[job[field] for field in fieldnames]\<close>.\<close>

definition sheet_row :: "job_record \<Rightarrow> json list" where
  "sheet_row job =
     [uuid job, printer_name job, JStr (date job), datetime_started job, datetime_finished job,
      name job, result job, time_total job, material_0_amount job, material_1_amount job,
      JStr (material_0_name job), JStr (material_1_name job)]"

definition csv_row :: "world \<Rightarrow> job_record \<Rightarrow> string list" where
  "csv_row w job = map (cell w) (sheet_row job)"

text \<open>
  The \<^verbatim>\<open>with self.csv_path.open(...)\<close> block of \<^verbatim>\<open>_save_jobs\<close>: mode \<^verbatim>\<open>'a'\<close> when the
  file exists, else \<^verbatim>\<open>'w'\<close> and a header row first. The Boolean tells whether the
  block completed; when it raised, the rows written before stay in the file.
\<close>

definition write_csv :: "world \<Rightarrow> csv_rows option \<Rightarrow> job_record list \<Rightarrow> bool \<times> csv_rows option" where
  "write_csv w file print_jobs =
     (let file_exists = (file \<noteq> None);
          old = (case file of None \<Rightarrow> [] | Some rows \<Rightarrow> rows);
          out = (if \<not> file_exists then [fieldnames] else []) @ map (csv_row w) print_jobs
      in case disk w of
           DiskOk \<Rightarrow> (True, Some (old @ out))
         | OpenFails \<Rightarrow> (False, file)
         | WriteFails n \<Rightarrow>
             if n < length out then (False, Some (old @ take n out))
             else (True, Some (old @ out)))"

text \<open>
  The state of the two stores: the log file, the rows the spreadsheet received, and
  how often \<^verbatim>\<open>_update_google_sheets\<close> was entered.
\<close>

record sinks =
  csv_file :: "csv_rows option"
  sheet_rows :: "json list list"
  mirror_attempts :: nat

text \<open>
  \<^verbatim>\<open>_update_google_sheets\<close>: every exception is caught and logged. The rows go out in
  batches of \<open>batch_size\<close>; when batch n fails, the batches before it were appended.
\<close>

definition update_google_sheets :: "world \<Rightarrow> job_record list \<Rightarrow> nat \<Rightarrow> sinks \<Rightarrow> sinks" where
  "update_google_sheets w print_jobs batch_size sk =
     (let rows = map sheet_row print_jobs;
          sk1 = sk\<lparr>mirror_attempts := Suc (mirror_attempts sk)\<rparr>
      in case sheets w of
           SheetsOk \<Rightarrow> sk1\<lparr>sheet_rows := sheet_rows sk1 @ rows\<rparr>
         | AuthFails \<Rightarrow> sk1
         | AppendFails n \<Rightarrow> sk1\<lparr>sheet_rows := sheet_rows sk1 @ take (n * batch_size) rows\<rparr>)"

text \<open>
  \<^verbatim>\<open>_save_jobs\<close>: the spreadsheet is updated after the \<^verbatim>\<open>with\<close> block, inside the same
  \<^verbatim>\<open>try\<close>; an exception of the block is caught by the handler, which only logs.
\<close>

definition save_jobs :: "world \<Rightarrow> job_record list \<Rightarrow> sinks \<Rightarrow> sinks" where
  "save_jobs w print_jobs sk =
     (case write_csv w (csv_file sk) print_jobs of
        (True, file') \<Rightarrow> update_google_sheets w print_jobs 100 (sk\<lparr>csv_file := file'\<rparr>)
      | (False, file') \<Rightarrow> sk\<lparr>csv_file := file'\<rparr>)"

text \<open>
  A row as \<^verbatim>\<open>csv.DictReader\<close> presents it: the header's keys paired with the cells,
  missing cells \<^verbatim>\<open>None\<close>; a key that occurs twice has the value of its last occurrence.
\<close>

fun dict_row :: "string list \<Rightarrow> string list \<Rightarrow> (string \<times> string option) list" where
  "dict_row [] cells = []"
| "dict_row (k # ks) [] = (k, None) # dict_row ks []"
| "dict_row (k # ks) (c # cs) = (k, Some c) # dict_row ks cs"

definition row_uuid :: "string list \<Rightarrow> string list \<Rightarrow> string list" where
  "row_uuid hdr row =
     (case map_of (rev (dict_row hdr row)) ''uuid'' of
        Some (Some c) \<Rightarrow> (if c \<noteq> [] then [c] else [])
      | _ \<Rightarrow> [])"

text \<open>
  \<^verbatim>\<open>_save_jobs\<close> opens the log with \<^verbatim>\<open>newline=''\<close>, \<^verbatim>\<open>_load_existing_uuids\<close> opens it
  without. The text the reader is given has therefore passed through Python's
  universal newlines: every carriage return followed by a line feed, and every other
  carriage return (code 13), has become a line feed (code 10). The writer quotes a
  cell that holds a line break, so the rows and cells come back as they were
  written, each cell with its line breaks translated.
\<close>

fun universal_newlines :: "string \<Rightarrow> string" where
  "universal_newlines [] = []"
| "universal_newlines [c] = (if c = CHR 0x0D then [CHR 0x0A] else [c])"
| "universal_newlines (c # d # cs) =
     (if c = CHR 0x0D \<and> d = CHR 0x0A then CHR 0x0A # universal_newlines cs
      else if c = CHR 0x0D then CHR 0x0A # universal_newlines (d # cs)
      else c # universal_newlines (d # cs))"

text \<open>
  \<^verbatim>\<open>csv.field_size_limit()\<close>, which the logger leaves at its default: the reader raises
  \<^verbatim>\<open>csv.Error\<close> for a cell of more characters.
\<close>

definition field_size_limit :: nat where
  "field_size_limit = 131072"

text \<open>
  The rows \<^verbatim>\<open>csv.reader\<close> yields for the log, read to its end; \<open>None\<close> when it raises
  \<^verbatim>\<open>csv.Error\<close> on the way. The limit applies to a cell as it is read, with its line
  breaks translated and its quotes undoubled. This is the reader of CPython 3.11 and
  later; before 3.11 it also raised on a NUL character.
\<close>

definition csv_reader :: "csv_rows \<Rightarrow> csv_rows option" where
  "csv_reader written =
     (let rows = map (map universal_newlines) written
      in if list_all (list_all (\<lambda>c. length c \<le> field_size_limit)) rows then Some rows else None)"

text \<open>
  \<^verbatim>\<open>_load_existing_uuids\<close>: \<^verbatim>\<open>{row['uuid'] for row in reader if row['uuid']}\<close>. The
  reader takes the first row as the header and skips empty rows. Without a
  \<^verbatim>\<open>uuid\<close> column the first row raises KeyError, and an oversized cell anywhere in
  the file raises \<^verbatim>\<open>csv.Error\<close> before the set is assigned; the handler of
  \<^verbatim>\<open>except Exception\<close> leaves the empty set, which is also the result when there is
  no row at all.
\<close>

definition load_existing_uuids :: "csv_rows option \<Rightarrow> string set" where
  "load_existing_uuids file =
     (case file of
        None \<Rightarrow> {}
      | Some written \<Rightarrow>
          (case csv_reader written of
             None \<Rightarrow> {}
           | Some [] \<Rightarrow> {}
           | Some (hdr # rows) \<Rightarrow>
               if ''uuid'' \<in> set hdr
               then set (concat (map (row_uuid hdr) (filter (\<lambda>row. row \<noteq> []) rows)))
               else {}))"

section \<open>UltimakerLogger\<close>

record logger =
  printers :: "printer list"
  existing_uuids :: "string set"

text \<open>The constructor, for the addresses read from the IP file and the log as it is on disk.\<close>

definition UltimakerLogger :: "string list \<Rightarrow> csv_rows option \<Rightarrow> logger" where
  "UltimakerLogger printer_ips file =
     \<lparr>printers = map (\<lambda>addr. \<lparr>ip = addr, cached_name = JNull\<rparr>) printer_ips,
      existing_uuids = load_existing_uuids file\<rparr>"

definition initial_state :: run_state where
  "initial_state = \<lparr>all_print_jobs = [], normalized = [], requests = []\<rparr>"

text \<open>
  \<^verbatim>\<open>collect_logs\<close>: the sweep, then \<^verbatim>\<open>_save_jobs\<close> if anything was collected. The final
  state of the run is returned with the stores, for the theorems to speak about.
\<close>

definition collect_logs :: "world \<Rightarrow> logger \<Rightarrow> sinks \<Rightarrow> (py_error + run_state \<times> sinks) option" where
  "collect_logs w self sk =
     (case sweep w (existing_uuids self) (printers self) initial_state of
        None \<Rightarrow> None
      | Some (Inl e) \<Rightarrow> Some (Inl e)
      | Some (Inr s) \<Rightarrow>
          Some (Inr (s, if all_print_jobs s \<noteq> [] then save_jobs w (all_print_jobs s) sk else sk)))"

definition main :: "world \<Rightarrow> string list \<Rightarrow> sinks \<Rightarrow> (py_error + run_state \<times> sinks) option" where
  "main w printer_ips sk = collect_logs w (UltimakerLogger printer_ips (csv_file sk)) sk"

section \<open>Observations and example inputs\<close>

text \<open>The batch a run hands to \<^verbatim>\<open>_save_jobs\<close>, if the run returns.\<close>

definition batch_of :: "(py_error + run_state \<times> sinks) option \<Rightarrow> job_record list option" where
  "batch_of r = (case r of Some (Inr (s, sk)) \<Rightarrow> Some (all_print_jobs s) | _ \<Rightarrow> None)"

text \<open>The full pipeline run twice, the second run starting from the stores the first left.\<close>

definition run_twice :: "world \<Rightarrow> string list \<Rightarrow> sinks \<Rightarrow> (py_error + run_state \<times> sinks) option" where
  "run_twice w printer_ips sk =
     (case main w printer_ips sk of
        Some (Inr (s1, sk1)) \<Rightarrow> main w printer_ips sk1
      | r \<Rightarrow> r)"

text \<open>The (offset, count) pairs of the history requests in a list of requests, in order.\<close>

fun page_requests :: "request list \<Rightarrow> (nat \<times> nat) list" where
  "page_requests [] = []"
| "page_requests ((addr, History offset count) # rs) = (offset, count) # page_requests rs"
| "page_requests ((addr, ep) # rs) = page_requests rs"

text \<open>What \<^verbatim>\<open>make_request\<close> returns for the history page at an offset.\<close>

definition history_page :: "world \<Rightarrow> string \<Rightarrow> nat \<Rightarrow> json" where
  "history_page w addr offset =
     (case http w addr (History offset BATCH_SIZE) of RequestException \<Rightarrow> JDict [] | Body j \<Rightarrow> j)"

text \<open>
  A page that ends the loop: no list (\<^verbatim>\<open>make_request\<close> gives \<^verbatim>\<open>{}\<close> for a failed request), or
  a list shorter than the page size.
\<close>

definition last_page :: "json \<Rightarrow> bool" where
  "last_page j = (case j of JList history \<Rightarrow> length history < BATCH_SIZE | _ \<Rightarrow> True)"

text \<open>A terminal result: what passes the test \<^verbatim>\<open>job.get('result') in ['Finished', 'Aborted']\<close>.\<close>

definition terminal :: "json \<Rightarrow> bool" where
  "terminal v = (v = JStr ''Finished'' \<or> v = JStr ''Aborted'')"




text \<open>
  A device for the examples: it is called UM3, serves the history pages given, and
  knows one material, whose document has a \<^verbatim>\<open>material\<close> element without text. The
  library functions are given at the arguments the examples use.
\<close>

definition example_datetime :: datetime where
  "example_datetime =
     \<lparr>year = 2024, month = 3, day = 1, hour = 10, minute = 0, second = 0, utcoffset = Some 0\<rparr>"

definition example_xml :: string where
  "example_xml = ''<fdmmaterial xmlns='' @ [CHR 0x22] @ ''http://www.ultimaker.com/material'' @ [CHR 0x22]
                   @ ''><metadata><name><material/></name></metadata></fdmmaterial>''"

definition example_world :: "(nat \<Rightarrow> http_result) \<Rightarrow> world" where
  "example_world pages =
     \<lparr>http = (\<lambda>addr ep. case ep of
                 System \<Rightarrow> Body (JDict [(''name'', JStr ''UM3'')])
               | History offset count \<Rightarrow> pages offset
               | Materials guid \<Rightarrow>
                   if guid = JStr ''guid-1'' then Body (JStr example_xml) else RequestException),
      fromisoformat = (\<lambda>s. if s = ''2024-03-01T10:00:00+00:00'' then Some example_datetime else None),
      date_isoformat = (\<lambda>dt. ''2024-03-01''),
      astimezone_isoformat = (\<lambda>dt. Some ''2024-03-01T02:00:00-08:00''),
      xml_find_material = (\<lambda>s. if s = example_xml then Element None else ParseError),
      str_of = (\<lambda>v. if v = JInt 3600 then ''3600'' else ''0''),
      disk = DiskOk,
      sheets = SheetsOk\<rparr>"

definition example_printer :: printer where
  "example_printer = \<lparr>ip = ''10.0.0.5'', cached_name = JNull\<rparr>"

definition no_stores :: sinks where
  "no_stores = \<lparr>csv_file = None, sheet_rows = [], mirror_attempts = 0\<rparr>"

text \<open>A finished job with the fields a device reports; the materials carry no GUID.\<close>

definition finished_job :: "(string \<times> json) list \<Rightarrow> json" where
  "finished_job ids =
     JDict (ids @ [(''result'', JStr ''Finished''), (''name'', JStr ''benchy''),
                   (''datetime_started'', JStr ''2024-03-01T10:00:00Z''),
                   (''datetime_finished'', JStr ''2024-03-01T10:00:00Z''),
                   (''time_total'', JInt 3600), (''material_0_amount'', JInt (- 5))])"

text \<open>The record \<^verbatim>\<open>_process_print_job\<close> makes of \<open>finished_job\<close> on the example device.\<close>

definition example_record :: "json \<Rightarrow> job_record" where
  "example_record u =
     \<lparr>uuid = u, printer_name = JStr ''UM3'', date = ''2024-03-01'',
      datetime_started = JStr ''2024-03-01T02:00:00-08:00'',
      datetime_finished = JStr ''2024-03-01T02:00:00-08:00'',
      name = JStr ''benchy'', result = JStr ''Finished'', time_total = JInt 3600,
      material_0_amount = JInt 0, material_1_amount = JInt 0,
      material_0_name = ''Unknown'', material_1_name = ''Unknown''\<rparr>"

text \<open>One page with the given jobs, and nothing after it.\<close>

definition single_page :: "json list \<Rightarrow> nat \<Rightarrow> http_result" where
  "single_page jobs offset = (if offset = 0 then Body (JList jobs) else Body (JList []))"

text \<open>
  A device with 53 entries in its history: a full page of fifty (the same job,
  listed fifty times), then a page of three; any further request fails.
\<close>

definition two_pages :: "nat \<Rightarrow> http_result" where
  "two_pages offset =
     (if offset = 0 then Body (JList (replicate 50 (finished_job [(''uuid'', JStr ''job-1'')])))
      else if offset = 50 then
        Body (JList [finished_job [(''uuid'', JStr ''job-51'')],
                     finished_job [(''uuid'', JStr ''job-52'')],
                     finished_job [(''uuid'', JStr ''job-53'')]])
      else RequestException)"




text \<open>
  How a later state of a run relates to an earlier one, for a set \<open>K\<close> of known ids:
  some records were normalized in between, each with a terminal result, and those
  whose uuid is not in \<open>K\<close> were appended to \<^verbatim>\<open>all_print_jobs\<close>, in the same order.
\<close>

definition run_extends :: "string set \<Rightarrow> run_state \<Rightarrow> run_state \<Rightarrow> bool" where
  "run_extends K s s' =
     (\<exists>new. normalized s' = normalized s @ new
          \<and> all_print_jobs s' = all_print_jobs s @ filter (\<lambda>r. \<not> in_uuids (uuid r) K) new
          \<and> list_all (\<lambda>r. terminal (result r)) new)"

text \<open>Two states with the same observations: they differ in \<^verbatim>\<open>all_print_jobs\<close> at most.\<close>

definition same_obs :: "run_state \<Rightarrow> run_state \<Rightarrow> bool" where
  "same_obs s t = (normalized t = normalized s \<and> requests t = requests s)"

section \<open>Evaluating the examples\<close>

lemma example_world_sel:
  "http (example_world pages) addr System = Body (JDict [(''name'', JStr ''UM3'')])"
  "http (example_world pages) addr (History offset count) = pages offset"
  "http (example_world pages) addr (Materials guid) =
     (if guid = JStr ''guid-1'' then Body (JStr example_xml) else RequestException)"
  "fromisoformat (example_world pages) s =
     (if s = ''2024-03-01T10:00:00+00:00'' then Some example_datetime else None)"
  "date_isoformat (example_world pages) dt = ''2024-03-01''"
  "astimezone_isoformat (example_world pages) dt = Some ''2024-03-01T02:00:00-08:00''"
  "xml_find_material (example_world pages) s = (if s = example_xml then Element None else ParseError)"
  "str_of (example_world pages) v = (if v = JInt 3600 then ''3600'' else ''0'')"
  "disk (example_world pages) = DiskOk"
  "sheets (example_world pages) = SheetsOk"
  by (simp_all add: example_world_def)

lemmas eval_defs = process_print_job_def dict_get_def start_date_def replace_Z_def
  PrinterAPI_name_def make_request_def get_material_name_def convert_to_pst_def Let_def
  in_uuids_def example_world_sel

section \<open>The material name\<close>

lemma get_material_name_falsy_guid:
  "\<not> truthy material_guid \<Longrightarrow> get_material_name w p material_guid rs = (Inr ''Unknown'', rs)"
  by (simp add: get_material_name_def)

lemma get_material_name_unknown:
  assumes "truthy material_guid"
    and "http w (ip p) (Materials material_guid) = RequestException
         \<or> (\<exists>s. http w (ip p) (Materials material_guid) = Body (JStr s)
                \<and> xml_find_material w s \<in> {ParseError, NoElement})"
  shows "get_material_name w p material_guid rs = (Inr ''Unknown'', rs @ [(ip p, Materials material_guid)])"
  using assms by (auto simp: get_material_name_def make_request_def)

text \<open>
  C7. \<^verbatim>\<open>get_material_name\<close> is meant never to raise. For a falsy GUID it returns
  \<^verbatim>\<open>"Unknown"\<close> without a request, and a failed request, a parse error or a missing
  element give \<^verbatim>\<open>"Unknown"\<close> (the two lemmas above). But when the device answers with
  a document whose \<^verbatim>\<open>material\<close> element has no text, \<^verbatim>\<open>material_element.text\<close> is
  \<^verbatim>\<open>None\<close> and \<^verbatim>\<open>.strip()\<close> raises AttributeError, which neither handler catches:
  the call below raises.
\<close>

theorem get_material_name_raises:
  "get_material_name (example_world (single_page [])) example_printer (JStr ''guid-1'') []
     = (Inl AttributeError, [(''10.0.0.5'', Materials (JStr ''guid-1''))])"
  by (simp add: get_material_name_def make_request_def example_world_sel example_printer_def)

section \<open>Saving\<close>

lemma save_jobs_cases:
  "write_csv w (csv_file sk) print_jobs = (True, f) \<Longrightarrow>
     save_jobs w print_jobs sk = update_google_sheets w print_jobs 100 (sk\<lparr>csv_file := f\<rparr>)"
  "write_csv w (csv_file sk) print_jobs = (False, f) \<Longrightarrow>
     save_jobs w print_jobs sk = sk\<lparr>csv_file := f\<rparr>"
  by (simp_all add: save_jobs_def)

lemma update_google_sheets_frame:
  "csv_file (update_google_sheets w print_jobs n sk) = csv_file sk"
  "mirror_attempts (update_google_sheets w print_jobs n sk) = Suc (mirror_attempts sk)"
  by (simp_all add: update_google_sheets_def Let_def split: sheets_behaviour.splits)

lemma cell_sheets: "cell (w\<lparr>sheets := b\<rparr>) v = cell w v"
  by (simp add: cell_def split: json.splits)

lemma csv_row_sheets: "csv_row (w\<lparr>sheets := b\<rparr>) = csv_row w"
  by (rule ext) (simp add: csv_row_def cell_sheets)

lemma write_csv_sheets: "write_csv (w\<lparr>sheets := b\<rparr>) file print_jobs = write_csv w file print_jobs"
  by (simp add: write_csv_def csv_row_sheets)

lemma write_csv_ok:
  "disk w = DiskOk \<Longrightarrow>
     write_csv w file print_jobs =
       (True, Some (case file of None \<Rightarrow> fieldnames # map (csv_row w) print_jobs
                    | Some rows \<Rightarrow> rows @ map (csv_row w) print_jobs))"
  by (simp add: write_csv_def split: option.splits)

text \<open>
  C6. In \<^verbatim>\<open>_save_jobs\<close> the spreadsheet is touched only after the \<^verbatim>\<open>with\<close> block that
  writes the log has completed. If the block raises, \<^verbatim>\<open>_update_google_sheets\<close> is not
  entered and the spreadsheet receives nothing. If it completes,
  \<^verbatim>\<open>_update_google_sheets\<close> is entered once, and whatever the spreadsheet does (\<open>b\<close>
  ranges over all its behaviours, failures included) the log file is what the
  \<^verbatim>\<open>with\<close> block left: a failure of the mirror is caught there and changes nothing
  in the log. \<^verbatim>\<open>_save_jobs\<close> itself always returns.
\<close>

theorem save_jobs_local_before_remote:
  "(\<not> fst (write_csv w (csv_file sk) print_jobs) \<longrightarrow>
       mirror_attempts (save_jobs w print_jobs sk) = mirror_attempts sk
     \<and> sheet_rows (save_jobs w print_jobs sk) = sheet_rows sk)
   \<and> (fst (write_csv w (csv_file sk) print_jobs) \<longrightarrow>
       mirror_attempts (save_jobs w print_jobs sk) = Suc (mirror_attempts sk))
   \<and> csv_file (save_jobs w print_jobs sk) = snd (write_csv w (csv_file sk) print_jobs)
   \<and> csv_file (save_jobs (w\<lparr>sheets := b\<rparr>) print_jobs sk) = csv_file (save_jobs w print_jobs sk)"
proof (cases "write_csv w (csv_file sk) print_jobs")
  case (Pair ok f)
  then have b: "write_csv (w\<lparr>sheets := b\<rparr>) (csv_file sk) print_jobs = (ok, f)"
    by (simp add: write_csv_sheets)
  show ?thesis
  proof (cases ok)
    case True
    with Pair b show ?thesis
      by (simp add: save_jobs_cases(1) update_google_sheets_frame)
  next
    case False
    with Pair b show ?thesis
      by (simp add: save_jobs_cases(2))
  qed
qed

text \<open>
  The theorem at work: with a disk that refuses to open the file the mirror is not
  attempted; with a working disk and a spreadsheet that rejects the credentials the
  mirror is attempted once and the log holds the header and the row.
\<close>

theorem save_jobs_local_before_remote_witness:
  "\<not> fst (write_csv (example_world (single_page [])\<lparr>disk := OpenFails\<rparr>) (csv_file no_stores)
            [example_record (JStr ''job-1'')])
   \<and> mirror_attempts (save_jobs (example_world (single_page [])\<lparr>disk := OpenFails\<rparr>)
         [example_record (JStr ''job-1'')] no_stores) = 0
   \<and> sheet_rows (save_jobs (example_world (single_page [])\<lparr>disk := OpenFails\<rparr>)
         [example_record (JStr ''job-1'')] no_stores) = []
   \<and> fst (write_csv (example_world (single_page [])) (csv_file no_stores) [example_record (JStr ''job-1'')])
   \<and> mirror_attempts (save_jobs (example_world (single_page [])\<lparr>sheets := AuthFails\<rparr>)
         [example_record (JStr ''job-1'')] no_stores) = 1
   \<and> csv_file (save_jobs (example_world (single_page [])\<lparr>sheets := AuthFails\<rparr>)
         [example_record (JStr ''job-1'')] no_stores)
       = Some [fieldnames, csv_row (example_world (single_page [])) (example_record (JStr ''job-1''))]"
  using save_jobs_local_before_remote
          [of "example_world (single_page [])\<lparr>disk := OpenFails\<rparr>" no_stores
              "[example_record (JStr ''job-1'')]" SheetsOk]
        save_jobs_local_before_remote
          [of "example_world (single_page [])" no_stores
              "[example_record (JStr ''job-1'')]" AuthFails]
  by (simp add: write_csv_def no_stores_def example_world_sel Let_def save_jobs_def
        update_google_sheets_def csv_row_def)

text \<open>
  C9. With a working disk, \<^verbatim>\<open>_save_jobs\<close> on a log that does not exist creates it as
  one header row followed by the data rows; on a log that exists it leaves every row
  there is in place and adds the data rows after them, without a header. A run of
  \<^verbatim>\<open>collect_logs\<close> that collected nothing does not call \<^verbatim>\<open>_save_jobs\<close>: the stores are
  as they were. (The file is the sequence of its rows; the bytes of a row are the csv
  module's.)
\<close>

theorem save_jobs_header_once:
  "(disk w = DiskOk \<and> csv_file sk = None \<longrightarrow>
      csv_file (save_jobs w print_jobs sk) = Some (fieldnames # map (csv_row w) print_jobs))
   \<and> (disk w = DiskOk \<and> csv_file sk = Some rows \<longrightarrow>
      csv_file (save_jobs w print_jobs sk) = Some (rows @ map (csv_row w) print_jobs))
   \<and> (collect_logs w self sk = Some (Inr (s, sk')) \<and> all_print_jobs s = [] \<longrightarrow> sk' = sk)"
proof (intro conjI impI)
  assume "disk w = DiskOk \<and> csv_file sk = None"
  then show "csv_file (save_jobs w print_jobs sk) = Some (fieldnames # map (csv_row w) print_jobs)"
    by (simp add: save_jobs_cases(1)[OF write_csv_ok] update_google_sheets_frame)
next
  assume "disk w = DiskOk \<and> csv_file sk = Some rows"
  then show "csv_file (save_jobs w print_jobs sk) = Some (rows @ map (csv_row w) print_jobs)"
    by (simp add: save_jobs_cases(1)[OF write_csv_ok] update_google_sheets_frame)
next
  assume "collect_logs w self sk = Some (Inr (s, sk')) \<and> all_print_jobs s = []"
  then show "sk' = sk"
    by (auto simp: collect_logs_def split: option.splits sum.splits)
qed

text \<open>
  The theorem at work: a first save, a save onto a log with one row, and a run whose
  only job is already in the log.
\<close>

lemma universal_newlines_id: "CHR 0x0D \<notin> set s \<Longrightarrow> universal_newlines s = s"
  by (induction s rule: universal_newlines.induct) auto

lemma universal_newlines_fieldnames: "map universal_newlines fieldnames = fieldnames"
  by (simp add: fieldnames_def)

lemma csv_reader_job_1:
  "csv_reader [fieldnames, [''job-1'']] = Some [fieldnames, [''job-1'']]"
  by (simp add: csv_reader_def field_size_limit_def fieldnames_def)

lemma load_job_1:
  "load_existing_uuids (Some [fieldnames, [''job-1'']]) = {''job-1''}"
  by (simp add: load_existing_uuids_def csv_reader_job_1) (auto simp: fieldnames_def row_uuid_def)

lemma known_run:
  "collect_logs (example_world (single_page [finished_job [(''uuid'', JStr ''job-1'')]]))
      (UltimakerLogger [''10.0.0.5''] (Some [fieldnames, [''job-1'']]))
      \<lparr>csv_file = Some [fieldnames, [''job-1'']], sheet_rows = [], mirror_attempts = 0\<rparr>
    = Some (Inr (\<lparr>all_print_jobs = [], normalized = [example_record (JStr ''job-1'')],
                   requests = [(''10.0.0.5'', System), (''10.0.0.5'', History 0 50)]\<rparr>,
                 \<lparr>csv_file = Some [fieldnames, [''job-1'']], sheet_rows = [], mirror_attempts = 0\<rparr>))"
  by (simp add: collect_logs_def UltimakerLogger_def load_job_1 collect_printer_def page_loop.simps
        initial_state_def single_page_def BATCH_SIZE_def eval_defs finished_job_def example_record_def)

theorem save_jobs_header_once_witness:
  "csv_file (save_jobs (example_world (single_page [])) [example_record (JStr ''job-2'')] no_stores)
     = Some [fieldnames, csv_row (example_world (single_page [])) (example_record (JStr ''job-2''))]
   \<and> csv_file (save_jobs (example_world (single_page [])) [example_record (JStr ''job-2'')]
        \<lparr>csv_file = Some [fieldnames, [''job-1'']], sheet_rows = [], mirror_attempts = 0\<rparr>)
     = Some [fieldnames, [''job-1''], csv_row (example_world (single_page [])) (example_record (JStr ''job-2''))]
   \<and> collect_logs (example_world (single_page [finished_job [(''uuid'', JStr ''job-1'')]]))
      (UltimakerLogger [''10.0.0.5''] (Some [fieldnames, [''job-1'']]))
      \<lparr>csv_file = Some [fieldnames, [''job-1'']], sheet_rows = [], mirror_attempts = 0\<rparr>
    = Some (Inr (\<lparr>all_print_jobs = [], normalized = [example_record (JStr ''job-1'')],
                   requests = [(''10.0.0.5'', System), (''10.0.0.5'', History 0 50)]\<rparr>,
                 \<lparr>csv_file = Some [fieldnames, [''job-1'']], sheet_rows = [], mirror_attempts = 0\<rparr>))"
  using save_jobs_header_once
          [of "example_world (single_page [])" no_stores "[example_record (JStr ''job-2'')]"]
        save_jobs_header_once
          [of "example_world (single_page [])"
              "\<lparr>csv_file = Some [fieldnames, [''job-1'']], sheet_rows = [], mirror_attempts = 0\<rparr>"
              "[example_record (JStr ''job-2'')]" "[fieldnames, [''job-1'']]"]
        save_jobs_header_once
          [of "example_world (single_page [finished_job [(''uuid'', JStr ''job-1'')]])"
              "\<lparr>csv_file = Some [fieldnames, [''job-1'']], sheet_rows = [], mirror_attempts = 0\<rparr>"
              _ _ "UltimakerLogger [''10.0.0.5''] (Some [fieldnames, [''job-1'']])"]
        known_run
  by (simp add: example_world_sel no_stores_def)

section \<open>Timestamps\<close>

lemma dict_get_present:
  "dict_get d k JNull \<noteq> JNull \<Longrightarrow> dict_get d k dflt = dict_get d k JNull"
  by (simp add: dict_get_def split: option.splits)

lemma dict_get_falsy:
  "\<not> truthy (dict_get d k JNull) \<Longrightarrow> \<not> truthy (dict_get d k (JStr []))"
  by (simp add: dict_get_def split: option.splits)

lemma ppj_fields:
  assumes "process_print_job w p job rs = (Some r, p', rs')"
  shows "datetime_started r = convert_to_pst w (dict_get job ''datetime_started'' (JStr []))"
    and "datetime_finished r = convert_to_pst w (dict_get job ''datetime_finished'' (JStr []))"
    and "uuid r = dict_get job ''uuid'' (JStr [])"
    and "result r = dict_get job ''result'' (JStr [])"
    and "start_date w job = Some (date r)"
  using assms unfolding process_print_job_def
  by (auto split: if_splits option.splits prod.splits sum.splits)

lemma ppj_finish_irrelevant:
  assumes "\<forall>k. k \<noteq> ''datetime_finished'' \<longrightarrow> map_of job' k = map_of job k"
  shows "process_print_job w p job' rs =
     (case process_print_job w p job rs of (r, x) \<Rightarrow>
        (map_option (\<lambda>r. r\<lparr>datetime_finished :=
            convert_to_pst w (dict_get job' ''datetime_finished'' (JStr []))\<rparr>) r, x))"
proof -
  have e: "\<And>k d. k \<noteq> ''datetime_finished'' \<Longrightarrow> dict_get job' k d = dict_get job k d"
    using assms by (simp add: dict_get_def)
  have s: "start_date w job' = start_date w job"
    by (simp add: start_date_def e)
  obtain pname p1 rs1 where n: "PrinterAPI_name w p rs = (pname, p1, rs1)"
    by (cases "PrinterAPI_name w p rs") auto
  obtain g0 rs2 where g0:
    "get_material_name w p1 (dict_get job ''material_0_guid'' (JStr [])) rs1 = (g0, rs2)"
    by fastforce
  obtain g1 rs3 where g1:
    "get_material_name w p1 (dict_get job ''material_1_guid'' (JStr [])) rs2 = (g1, rs3)"
    by fastforce
  show ?thesis
    unfolding process_print_job_def s
    by (cases "start_date w job";
        cases "max0 (dict_get job ''material_0_amount'' (JInt 0))";
        cases "max0 (dict_get job ''material_1_amount'' (JInt 0))";
        cases g0; cases g1; simp add: e n g0 g1)
qed

lemma ppj_empty_start:
  assumes "\<forall>k. k \<noteq> ''datetime_started'' \<longrightarrow> map_of job' k = map_of job k"
    and "\<not> truthy (dict_get job' ''datetime_started'' JNull)"
    and "fst (process_print_job w p job rs) \<noteq> None"
  shows "fst (process_print_job w p job' rs) \<noteq> None"
proof -
  have e: "\<And>k d. k \<noteq> ''datetime_started'' \<Longrightarrow> dict_get job' k d = dict_get job k d"
    using assms(1) by (simp add: dict_get_def)
  have s: "start_date w job' = Some []"
    using assms(2) by (simp add: start_date_def)
  obtain pname p1 rs1 where n: "PrinterAPI_name w p rs = (pname, p1, rs1)"
    by (cases "PrinterAPI_name w p rs") auto
  obtain g0 rs2 where g0:
    "get_material_name w p1 (dict_get job ''material_0_guid'' (JStr [])) rs1 = (g0, rs2)"
    by fastforce
  obtain g1 rs3 where g1:
    "get_material_name w p1 (dict_get job ''material_1_guid'' (JStr [])) rs2 = (g1, rs3)"
    by fastforce
  show ?thesis
    using assms(3) unfolding process_print_job_def s
    by (cases "start_date w job";
        cases "max0 (dict_get job ''material_0_amount'' (JInt 0))";
        cases "max0 (dict_get job ''material_1_amount'' (JInt 0))";
        cases g0; cases g1; simp add: e n g0 g1 split: if_splits)
qed

lemma ppj_bad_start:
  assumes "dict_get job ''datetime_started'' JNull = JStr t" and "t \<noteq> []"
    and "fromisoformat w (replace_Z t) = None"
  shows "process_print_job w p job rs = (None, p, rs)"
proof -
  have "dict_get job ''datetime_started'' (JStr []) = JStr t"
    using assms(1) dict_get_present[of job "''datetime_started''" "JStr []"] by simp
  then have "start_date w job = None"
    using assms by (simp add: start_date_def)
  then show ?thesis by (simp add: process_print_job_def)
qed

lemma convert_to_pst_falsy: "\<not> truthy v \<Longrightarrow> convert_to_pst w v = JStr []"
  by (simp add: convert_to_pst_def)

lemma convert_to_pst_unparseable:
  "t \<noteq> [] \<Longrightarrow> fromisoformat w (replace_Z t) = None \<Longrightarrow> convert_to_pst w (JStr t) = JStr t"
  by (simp add: convert_to_pst_def)

text \<open>
  C8, as the code has it. For a record that is produced: a falsy (missing, null or
  empty) start timestamp gives the empty string and the empty date, a falsy finish
  timestamp gives the empty string, and a finish timestamp that \<^verbatim>\<open>fromisoformat\<close>
  rejects is passed through as it is. The finish timestamp has no influence on whether
  a record is produced, and replacing the start timestamp by a falsy one never turns a
  produced record into a skipped one. A non-empty start timestamp that
  \<^verbatim>\<open>fromisoformat\<close> rejects makes \<^verbatim>\<open>_process_print_job\<close> return \<^verbatim>\<open>None\<close>: the record is
  skipped.
\<close>

theorem timestamps_in_the_record:
  "(process_print_job w p job rs = (Some r, p', rs') \<longrightarrow>
       (\<not> truthy (dict_get job ''datetime_started'' JNull) \<longrightarrow>
          datetime_started r = JStr [] \<and> date r = [])
     \<and> (\<not> truthy (dict_get job ''datetime_finished'' JNull) \<longrightarrow> datetime_finished r = JStr [])
     \<and> (dict_get job ''datetime_finished'' JNull = JStr t \<and> t \<noteq> []
          \<and> fromisoformat w (replace_Z t) = None \<longrightarrow> datetime_finished r = JStr t))
   \<and> ((\<forall>k. k \<noteq> ''datetime_finished'' \<longrightarrow> map_of job' k = map_of job k) \<longrightarrow>
        (fst (process_print_job w p job' rs) = None) = (fst (process_print_job w p job rs) = None))
   \<and> ((\<forall>k. k \<noteq> ''datetime_started'' \<longrightarrow> map_of job' k = map_of job k)
        \<and> \<not> truthy (dict_get job' ''datetime_started'' JNull)
        \<and> fst (process_print_job w p job rs) \<noteq> None \<longrightarrow>
        fst (process_print_job w p job' rs) \<noteq> None)
   \<and> (dict_get job ''datetime_started'' JNull = JStr t \<and> t \<noteq> []
        \<and> fromisoformat w (replace_Z t) = None \<longrightarrow>
        process_print_job w p job rs = (None, p, rs))"
proof (intro conjI impI)
  assume a: "process_print_job w p job rs = (Some r, p', rs')"
  { assume f: "\<not> truthy (dict_get job ''datetime_started'' JNull)"
    then show "datetime_started r = JStr []"
      by (simp add: ppj_fields(1)[OF a] convert_to_pst_falsy dict_get_falsy)
    from f have "start_date w job = Some []" by (simp add: start_date_def)
    then show "date r = []" using ppj_fields(5)[OF a] by simp }
  { assume "\<not> truthy (dict_get job ''datetime_finished'' JNull)"
    then show "datetime_finished r = JStr []"
      by (simp add: ppj_fields(2)[OF a] convert_to_pst_falsy dict_get_falsy) }
  { assume b: "dict_get job ''datetime_finished'' JNull = JStr t \<and> t \<noteq> []
          \<and> fromisoformat w (replace_Z t) = None"
    then have "dict_get job ''datetime_finished'' (JStr []) = JStr t"
      using dict_get_present[of job "''datetime_finished''" "JStr []"] by simp
    then show "datetime_finished r = JStr t"
      using b by (simp add: ppj_fields(2)[OF a] convert_to_pst_unparseable) }
next
  assume "\<forall>k. k \<noteq> ''datetime_finished'' \<longrightarrow> map_of job' k = map_of job k"
  from ppj_finish_irrelevant[OF this, of w p rs]
  show "(fst (process_print_job w p job' rs) = None) = (fst (process_print_job w p job rs) = None)"
    by (cases "process_print_job w p job rs") simp
next
  assume "(\<forall>k. k \<noteq> ''datetime_started'' \<longrightarrow> map_of job' k = map_of job k)
        \<and> \<not> truthy (dict_get job' ''datetime_started'' JNull)
        \<and> fst (process_print_job w p job rs) \<noteq> None"
  then show "fst (process_print_job w p job' rs) \<noteq> None"
    using ppj_empty_start[of job' job w p rs] by blast
next
  assume "dict_get job ''datetime_started'' JNull = JStr t \<and> t \<noteq> []
        \<and> fromisoformat w (replace_Z t) = None"
  then show "process_print_job w p job rs = (None, p, rs)"
    by (simp add: ppj_bad_start)
qed

text \<open>
  C8 as the spec states it fails twice on the example device. A finished job whose
  start timestamp is the string \<^verbatim>\<open>yesterday\<close> is skipped; a finished job whose finish
  timestamp is \<^verbatim>\<open>yesterday\<close> gets that string, not the empty one, in its record.
\<close>

theorem unparseable_timestamp_counterexample:
  "fst (process_print_job (example_world (single_page [])) example_printer
          [(''result'', JStr ''Finished''), (''datetime_started'', JStr ''yesterday'')] []) = None
   \<and> map_option datetime_finished
        (fst (process_print_job (example_world (single_page [])) example_printer
          [(''result'', JStr ''Finished''), (''datetime_finished'', JStr ''yesterday'')] []))
       = Some (JStr ''yesterday'')"
  by (simp add: eval_defs example_printer_def)

text \<open>The theorem at work on four jobs of the example device.\<close>

lemma ppj_examples:
  "process_print_job (example_world (single_page [])) example_printer
      [(''result'', JStr ''Finished''), (''datetime_finished'', JStr ''yesterday'')] []
    = (Some ((example_record (JStr []))\<lparr>date := [], datetime_started := JStr [],
               datetime_finished := JStr ''yesterday'', name := JStr [], time_total := JInt 0\<rparr>),
       example_printer\<lparr>cached_name := JStr ''UM3''\<rparr>, [(''10.0.0.5'', System)])"
  "process_print_job (example_world (single_page [])) example_printer
      [(''result'', JStr ''Finished'')] []
    = (Some ((example_record (JStr []))\<lparr>date := [], datetime_started := JStr [],
               datetime_finished := JStr [], name := JStr [], time_total := JInt 0\<rparr>),
       example_printer\<lparr>cached_name := JStr ''UM3''\<rparr>, [(''10.0.0.5'', System)])"
  "process_print_job (example_world (single_page [])) example_printer
      [(''result'', JStr ''Finished''), (''datetime_started'', JStr ''2024-03-01T10:00:00Z'')] []
    = (Some ((example_record (JStr []))\<lparr>datetime_finished := JStr [], name := JStr [],
               time_total := JInt 0\<rparr>),
       example_printer\<lparr>cached_name := JStr ''UM3''\<rparr>, [(''10.0.0.5'', System)])"
  by (simp_all add: eval_defs example_printer_def example_record_def)

theorem timestamps_in_the_record_witness:
  "map_option datetime_started
      (fst (process_print_job (example_world (single_page [])) example_printer
         [(''result'', JStr ''Finished''), (''datetime_finished'', JStr ''yesterday'')] [])) = Some (JStr [])
   \<and> map_option datetime_finished
      (fst (process_print_job (example_world (single_page [])) example_printer
         [(''result'', JStr ''Finished''), (''datetime_finished'', JStr ''yesterday'')] []))
       = Some (JStr ''yesterday'')
   \<and> map_option datetime_finished
      (fst (process_print_job (example_world (single_page [])) example_printer
         [(''result'', JStr ''Finished'')] [])) = Some (JStr [])
   \<and> fst (process_print_job (example_world (single_page [])) example_printer
         [(''result'', JStr ''Finished'')] []) \<noteq> None
   \<and> process_print_job (example_world (single_page [])) example_printer
         [(''result'', JStr ''Finished''), (''datetime_started'', JStr ''yesterday'')] []
       = (None, example_printer, [])"
  using timestamps_in_the_record
          [of "example_world (single_page [])" example_printer
              "[(''result'', JStr ''Finished''), (''datetime_finished'', JStr ''yesterday'')]" "[]"
              "(example_record (JStr []))\<lparr>date := [], datetime_started := JStr [],
                 datetime_finished := JStr ''yesterday'', name := JStr [], time_total := JInt 0\<rparr>"
              "example_printer\<lparr>cached_name := JStr ''UM3''\<rparr>" "[(''10.0.0.5'', System)]"
              "''yesterday''"
              "[(''result'', JStr ''Finished'')]"]
        timestamps_in_the_record
          [of "example_world (single_page [])" example_printer
              "[(''result'', JStr ''Finished''), (''datetime_started'', JStr ''yesterday'')]" "[]"
              _ _ _ "''yesterday''"
              "[(''result'', JStr ''Finished'')]"]
        timestamps_in_the_record
          [of "example_world (single_page [])" example_printer
              "[(''result'', JStr ''Finished''), (''datetime_started'', JStr ''2024-03-01T10:00:00Z'')]" "[]"
              _ _ _ _
              "[(''result'', JStr ''Finished'')]"]
  by (simp add: ppj_examples dict_get_def example_world_sel replace_Z_def example_record_def)

section \<open>The sweep\<close>

lemma page_requests_append: "page_requests (a @ b) = page_requests a @ page_requests b"
  by (induction a rule: page_requests.induct) simp_all

lemma PrinterAPI_name_frame:
  assumes "PrinterAPI_name w p rs = (n, p', rs')"
  shows "ip p' = ip p" and "\<exists>x. rs' = rs @ x \<and> page_requests x = []"
  using assms
  by (auto simp: PrinterAPI_name_def make_request_def Let_def split: if_splits)

lemma get_material_name_frame:
  assumes "get_material_name w p g rs = (r, rs')"
  shows "\<exists>x. rs' = rs @ x \<and> page_requests x = []"
  using assms
  by (auto simp: get_material_name_def make_request_def Let_def
      split: if_splits json.splits xml_lookup.splits option.splits)

lemma process_print_job_frame:
  assumes "process_print_job w p job rs = (r, p', rs')"
  shows "ip p' = ip p" and "\<exists>x. rs' = rs @ x \<and> page_requests x = []"
proof -
  obtain pname p1 rs1 where n: "PrinterAPI_name w p rs = (pname, p1, rs1)"
    by (cases "PrinterAPI_name w p rs") auto
  obtain g0 rs2 where g0:
    "get_material_name w p1 (dict_get job ''material_0_guid'' (JStr [])) rs1 = (g0, rs2)"
    by fastforce
  obtain g1 rs3 where g1:
    "get_material_name w p1 (dict_get job ''material_1_guid'' (JStr [])) rs2 = (g1, rs3)"
    by fastforce
  from PrinterAPI_name_frame[OF n] obtain x1 where
    i1: "ip p1 = ip p" and x1: "rs1 = rs @ x1" "page_requests x1 = []" by auto
  from get_material_name_frame[OF g0] obtain x2 where x2: "rs2 = rs1 @ x2" "page_requests x2 = []"
    by auto
  from get_material_name_frame[OF g1] obtain x3 where x3: "rs3 = rs2 @ x3" "page_requests x3 = []"
    by auto
  have c: "(p', rs') = (p, rs) \<or> (p', rs') = (p1, rs1) \<or> (p', rs') = (p1, rs2) \<or> (p', rs') = (p1, rs3)"
    using assms unfolding process_print_job_def
    by (cases "start_date w job";
        cases "max0 (dict_get job ''material_0_amount'' (JInt 0))";
        cases "max0 (dict_get job ''material_1_amount'' (JInt 0))";
        cases g0; cases g1; simp add: n g0 g1 split: if_splits)
  from c i1 show "ip p' = ip p" by auto
  have "rs = rs @ [] \<and> page_requests [] = []" by simp
  moreover have "rs1 = rs @ x1 \<and> page_requests x1 = []" using x1 by simp
  moreover have "rs2 = rs @ (x1 @ x2) \<and> page_requests (x1 @ x2) = []"
    using x1 x2 by (simp add: page_requests_append)
  moreover have "rs3 = rs @ (x1 @ x2 @ x3) \<and> page_requests (x1 @ x2 @ x3) = []"
    using x1 x2 x3 by (simp add: page_requests_append)
  ultimately show "\<exists>x. rs' = rs @ x \<and> page_requests x = []"
    using c by (elim disjE) blast+
qed

lemma in_uuids_default:
  "[] \<notin> K \<Longrightarrow> in_uuids (dict_get d k JNull) K = in_uuids (dict_get d k (JStr [])) K"
  by (simp add: dict_get_def in_uuids_def split: option.splits)

lemma run_extends_refl: "run_extends K s s"
  by (simp add: run_extends_def)

lemma run_extends_trans:
  assumes "run_extends K s t" and "run_extends K t u"
  shows "run_extends K s u"
proof -
  from assms(1) obtain a where a: "normalized t = normalized s @ a"
    "all_print_jobs t = all_print_jobs s @ filter (\<lambda>r. \<not> in_uuids (uuid r) K) a"
    "list_all (\<lambda>r. terminal (result r)) a"
    by (auto simp: run_extends_def)
  from assms(2) obtain b where b: "normalized u = normalized t @ b"
    "all_print_jobs u = all_print_jobs t @ filter (\<lambda>r. \<not> in_uuids (uuid r) K) b"
    "list_all (\<lambda>r. terminal (result r)) b"
    by (auto simp: run_extends_def)
  have "normalized u = normalized s @ (a @ b)"
    "all_print_jobs u = all_print_jobs s @ filter (\<lambda>r. \<not> in_uuids (uuid r) K) (a @ b)"
    "list_all (\<lambda>r. terminal (result r)) (a @ b)"
    using a b by simp_all
  then show ?thesis unfolding run_extends_def by blast
qed

lemma run_extends_requests: "run_extends K s (s\<lparr>requests := rs\<rparr>)"
  by (simp add: run_extends_def)

lemma run_extends_requests_left: "run_extends K (s\<lparr>requests := rs\<rparr>) t = run_extends K s t"
  by (simp add: run_extends_def)

text \<open>One job of a page.\<close>

lemma process_jobs_extends:
  assumes "process_jobs w K p history s = Inr (p', s')" and "[] \<notin> K"
  shows "ip p' = ip p \<and> run_extends K s s'
         \<and> (\<exists>x. requests s' = requests s @ x \<and> page_requests x = [])"
  using assms(1)
proof (induction history arbitrary: p s)
  case Nil
  then show ?case by (simp add: run_extends_refl)
next
  case (Cons job history)
  show ?case
  proof (cases job)
    case (JDict d)
    obtain r p1 rs1 where pp: "process_print_job w p d (requests s) = (r, p1, rs1)"
      by (cases "process_print_job w p d (requests s)") auto
    from process_print_job_frame[OF pp] obtain x1 where
      f: "ip p1 = ip p" "rs1 = requests s @ x1" "page_requests x1 = []" by auto
    show ?thesis
    proof (cases r)
      case None
      with Cons.prems JDict pp
      have "process_jobs w K p1 history (s\<lparr>requests := rs1\<rparr>) = Inr (p', s')" by simp
      from Cons.IH[OF this] f show ?thesis
        by (auto simp: run_extends_requests_left page_requests_append)
    next
      case (Some rec)
      from pp Some have u: "uuid rec = dict_get d ''uuid'' (JStr [])"
        and t: "terminal (result rec)"
        using ppj_fields(3,4)[of w p d "requests s" rec p1 rs1]
        by (auto simp: terminal_def process_print_job_def dict_get_present split: if_splits)
      let ?raw = "dict_get d ''uuid'' JNull"
      have m: "in_uuids ?raw K = in_uuids (uuid rec) K"
        using in_uuids_default[OF assms(2)] u by simp
      define s1 where "s1 = (if in_uuids ?raw K
          then s\<lparr>normalized := normalized s @ [rec], requests := rs1\<rparr>
          else s\<lparr>all_print_jobs := all_print_jobs s @ [rec],
                 normalized := normalized s @ [rec], requests := rs1\<rparr>)"
      from Cons.prems JDict pp Some
      have rec: "process_jobs w K p1 history s1 = Inr (p', s')"
        by (simp add: s1_def split: if_splits)
      have e1: "run_extends K s s1"
        unfolding run_extends_def
        by (rule exI[of _ "[rec]"]) (simp add: s1_def m t)
      have r1: "requests s1 = rs1" by (simp add: s1_def)
      from Cons.IH[OF rec] f r1 e1 show ?thesis
        by (auto simp: page_requests_append intro: run_extends_trans)
    qed
  qed (use Cons in simp_all)
qed

lemma page_loop_extends_aux:
  assumes "page_loop w K p offset s = Some y"
  shows "[] \<notin> K \<longrightarrow>
         (case y of Inl e \<Rightarrow> True | Inr (p', s') \<Rightarrow> ip p' = ip p \<and> run_extends K s s')"
proof (rule page_loop.raw_induct
    [where P = "\<lambda>w K p offset s y. [] \<notin> K \<longrightarrow>
         (case y of Inl e \<Rightarrow> True | Inr (p', s') \<Rightarrow> ip p' = ip p \<and> run_extends K s s')",
     OF _ assms], goal_cases)
  case (1 f w K p offset s y)
  show ?case
  proof
    assume K: "[] \<notin> K"
    show "case y of Inl e \<Rightarrow> True | Inr (p', s') \<Rightarrow> ip p' = ip p \<and> run_extends K s s'"
    proof (cases "fst (make_request w (ip p) (History offset BATCH_SIZE) (requests s))")
      case (JList history)
      let ?s0 = "s\<lparr>requests := snd (make_request w (ip p) (History offset BATCH_SIZE) (requests s))\<rparr>"
      show ?thesis
      proof (cases "process_jobs w K p history ?s0")
        case (Inl e)
        with 1(2) JList show ?thesis
          by (auto simp: split_beta)
      next
        case (Inr ps)
        obtain p1 s1 where ps: "ps = (p1, s1)" by (cases ps)
        from process_jobs_extends[OF Inr[unfolded ps] K]
        have a: "ip p1 = ip p" "run_extends K s s1"
          by (simp_all add: run_extends_requests_left)
        show ?thesis
        proof (cases "length history < BATCH_SIZE")
          case True
          with 1(2) JList Inr ps a show ?thesis by (auto simp: split_beta)
        next
          case False
          with 1(2) JList Inr ps have "f w K p1 (offset + BATCH_SIZE) s1 = Some y"
            by (simp add: split_beta)
          from 1(1)[OF this] K a show ?thesis
            by (auto split: sum.splits intro: run_extends_trans)
        qed
      qed
    qed (use 1(2) in \<open>auto simp: split_beta run_extends_requests\<close>)
  qed
qed

lemma page_loop_extends:
  assumes "page_loop w K p offset s = Some (Inr (p', s'))" and "[] \<notin> K"
  shows "ip p' = ip p" and "run_extends K s s'"
  using page_loop_extends_aux[OF assms(1)] assms(2) by simp_all

lemma collect_printer_extends:
  assumes "collect_printer w K p s = Some (Inr (p', s'))" and "[] \<notin> K"
  shows "run_extends K s s'"
proof -
  obtain n p1 rs1 where n: "PrinterAPI_name w p (requests s) = (n, p1, rs1)"
    by (cases "PrinterAPI_name w p (requests s)") auto
  with assms(1) have "page_loop w K p1 0 (s\<lparr>requests := rs1\<rparr>) = Some (Inr (p', s'))"
    by (simp add: collect_printer_def)
  from page_loop_extends(2)[OF this assms(2)] show ?thesis
    by (simp add: run_extends_requests_left)
qed

lemma sweep_extends:
  assumes "sweep w K ps s = Some (Inr s')" and "[] \<notin> K"
  shows "run_extends K s s'"
  using assms(1)
proof (induction ps arbitrary: s)
  case Nil
  then show ?case by (simp add: run_extends_refl)
next
  case (Cons p ps)
  from Cons.prems obtain p1 s1 where
    c: "collect_printer w K p s = Some (Inr (p1, s1))" and r: "sweep w K ps s1 = Some (Inr s')"
    by (auto split: option.splits sum.splits)
  from collect_printer_extends[OF c assms(2)] Cons.IH[OF r] show ?case
    by (rule run_extends_trans)
qed

lemma load_existing_uuids_nonempty: "[] \<notin> load_existing_uuids file"
  by (auto simp: load_existing_uuids_def row_uuid_def split: option.splits list.splits if_splits)

lemma main_extends:
  assumes "main w printer_ips sk = Some (Inr (s, sk'))"
  shows "run_extends (load_existing_uuids (csv_file sk)) initial_state s"
    and "sk' = (if all_print_jobs s \<noteq> [] then save_jobs w (all_print_jobs s) sk else sk)"
proof -
  from assms have
    sw: "sweep w (load_existing_uuids (csv_file sk))
           (map (\<lambda>addr. \<lparr>ip = addr, cached_name = JNull\<rparr>) printer_ips) initial_state
         = Some (Inr s)"
    and "sk' = (if all_print_jobs s \<noteq> [] then save_jobs w (all_print_jobs s) sk else sk)"
    by (auto simp: main_def collect_logs_def UltimakerLogger_def split: option.splits sum.splits)
  then show "sk' = (if all_print_jobs s \<noteq> [] then save_jobs w (all_print_jobs s) sk else sk)"
    by simp
  from sweep_extends[OF sw load_existing_uuids_nonempty]
  show "run_extends (load_existing_uuids (csv_file sk)) initial_state s" .
qed

lemmas run_defs = main_def collect_logs_def UltimakerLogger_def collect_printer_def
  page_loop.simps initial_state_def single_page_def BATCH_SIZE_def eval_defs finished_job_def
  example_record_def no_stores_def

section \<open>Deduplication\<close>

text \<open>
  C1. Whenever a run returns, the batch \<^verbatim>\<open>all_print_jobs\<close> is exactly the subsequence
  of the records the normalizer produced during the sweep, in the order met, whose
  uuid is not in the set loaded from the log at startup; and that batch is what
  \<^verbatim>\<open>_save_jobs\<close> receives (nothing is saved when it is empty).
\<close>

theorem known_uuids_excluded:
  assumes "main w printer_ips sk = Some (Inr (s, sk'))"
  shows "all_print_jobs s =
           filter (\<lambda>r. \<not> in_uuids (uuid r) (load_existing_uuids (csv_file sk))) (normalized s)
         \<and> sk' = (if all_print_jobs s = [] then sk else save_jobs w (all_print_jobs s) sk)"
  using main_extends[OF assms]
  by (auto simp: run_extends_def initial_state_def)

text \<open>
  The theorem at work: the log holds job-1, the device reports job-1 and job-2, and the
  batch is the record of job-2.
\<close>

lemma two_jobs_run:
  "main (example_world (single_page [finished_job [(''uuid'', JStr ''job-1'')],
                                     finished_job [(''uuid'', JStr ''job-2'')]]))
        [''10.0.0.5'']
        \<lparr>csv_file = Some [fieldnames, [''job-1'']], sheet_rows = [], mirror_attempts = 0\<rparr>
   = Some (Inr (\<lparr>all_print_jobs = [example_record (JStr ''job-2'')],
                  normalized = [example_record (JStr ''job-1''), example_record (JStr ''job-2'')],
                  requests = [(''10.0.0.5'', System), (''10.0.0.5'', History 0 50)]\<rparr>,
                save_jobs (example_world (single_page [finished_job [(''uuid'', JStr ''job-1'')],
                                     finished_job [(''uuid'', JStr ''job-2'')]]))
                  [example_record (JStr ''job-2'')]
                  \<lparr>csv_file = Some [fieldnames, [''job-1'']], sheet_rows = [], mirror_attempts = 0\<rparr>))"
  by (simp add: run_defs load_job_1)

theorem known_uuids_excluded_witness:
  "batch_of (main (example_world (single_page [finished_job [(''uuid'', JStr ''job-1'')],
                                               finished_job [(''uuid'', JStr ''job-2'')]]))
        [''10.0.0.5'']
        \<lparr>csv_file = Some [fieldnames, [''job-1'']], sheet_rows = [], mirror_attempts = 0\<rparr>)
     = Some [example_record (JStr ''job-2'')]
   \<and> [example_record (JStr ''job-2'')] =
       filter (\<lambda>r. \<not> in_uuids (uuid r) (load_existing_uuids (Some [fieldnames, [''job-1'']])))
         [example_record (JStr ''job-1''), example_record (JStr ''job-2'')]"
  using known_uuids_excluded[OF two_jobs_run]
  by (simp add: two_jobs_run batch_of_def)

lemma count_list_filter_uuid:
  "count_list (map uuid (filter (\<lambda>r. \<not> in_uuids (uuid r) K) rs)) u =
     (if in_uuids u K then 0 else count_list (map uuid rs) u)"
  by (induction rs) auto

lemma distinct_count_list:
  "distinct xs \<longleftrightarrow> (\<forall>x. count_list xs x \<le> 1)"
proof (induction xs)
  case Nil
  then show ?case by simp
next
  case (Cons a xs)
  show ?case
  proof
    assume d: "distinct (a # xs)"
    then have "count_list xs a = 0" by (simp add: count_list_0_iff)
    with d Cons show "\<forall>x. count_list (a # xs) x \<le> 1" by auto
  next
    assume c: "\<forall>x. count_list (a # xs) x \<le> 1"
    then have "count_list (a # xs) a \<le> 1" by blast
    then have "a \<notin> set xs" by (simp add: count_list_0_iff)
    moreover have "\<forall>x. count_list xs x \<le> 1"
    proof
      fix x from c have "count_list (a # xs) x \<le> 1" by blast
      then show "count_list xs x \<le> 1" by (simp split: if_splits)
    qed
    ultimately show "distinct (a # xs)" using Cons by simp
  qed
qed

text \<open>
  C3, as the code has it. The sweep keeps no set of the ids seen during the run. A uuid
  in the set loaded from the log at startup occurs in no record of the batch of a run
  that returns, and every other uuid occurs in the batch as many times as among the
  records normalized during the sweep. So the uuids of the batch are pairwise
  different if and only if no uuid outside the startup set is the uuid of two of the
  records normalized during the sweep.
\<close>

theorem batch_uuid_multiplicity:
  assumes "main w printer_ips sk = Some (Inr (s, sk'))"
  shows "(\<forall>u. count_list (map uuid (all_print_jobs s)) u =
            (if in_uuids u (load_existing_uuids (csv_file sk)) then 0
             else count_list (map uuid (normalized s)) u))
       \<and> (distinct (map uuid (all_print_jobs s)) \<longleftrightarrow>
            (\<forall>u. in_uuids u (load_existing_uuids (csv_file sk))
                 \<or> count_list (map uuid (normalized s)) u \<le> 1))"
proof -
  let ?K = "load_existing_uuids (csv_file sk)"
  from main_extends(1)[OF assms]
  have b: "all_print_jobs s = filter (\<lambda>r. \<not> in_uuids (uuid r) ?K) (normalized s)"
    by (auto simp: run_extends_def initial_state_def)
  have c: "count_list (map uuid (all_print_jobs s)) u =
            (if in_uuids u ?K then 0 else count_list (map uuid (normalized s)) u)" for u
    unfolding b by (rule count_list_filter_uuid)
  have "distinct (map uuid (all_print_jobs s)) \<longleftrightarrow>
          (\<forall>u. count_list (map uuid (all_print_jobs s)) u \<le> 1)"
    by (rule distinct_count_list)
  also have "\<dots> \<longleftrightarrow> (\<forall>u. in_uuids u ?K \<or> count_list (map uuid (normalized s)) u \<le> 1)"
    by (auto simp: c)
  finally show ?thesis using c by blast
qed

lemma four_jobs_run:
  "main (example_world (single_page [finished_job [(''uuid'', JStr ''job-1'')],
                                     finished_job [(''uuid'', JStr ''job-1'')],
                                     finished_job [(''uuid'', JStr ''job-2'')],
                                     finished_job [(''uuid'', JStr ''job-3'')]]))
        [''10.0.0.5'']
        \<lparr>csv_file = Some [fieldnames, [''job-1'']], sheet_rows = [], mirror_attempts = 0\<rparr>
   = Some (Inr (\<lparr>all_print_jobs = [example_record (JStr ''job-2''), example_record (JStr ''job-3'')],
                  normalized = [example_record (JStr ''job-1''), example_record (JStr ''job-1''),
                                example_record (JStr ''job-2''), example_record (JStr ''job-3'')],
                  requests = [(''10.0.0.5'', System), (''10.0.0.5'', History 0 50)]\<rparr>,
                save_jobs (example_world (single_page [finished_job [(''uuid'', JStr ''job-1'')],
                                     finished_job [(''uuid'', JStr ''job-1'')],
                                     finished_job [(''uuid'', JStr ''job-2'')],
                                     finished_job [(''uuid'', JStr ''job-3'')]]))
                  [example_record (JStr ''job-2''), example_record (JStr ''job-3'')]
                  \<lparr>csv_file = Some [fieldnames, [''job-1'']], sheet_rows = [], mirror_attempts = 0\<rparr>))"
  by (simp add: run_defs load_job_1)

text \<open>
  The theorem at work: the log holds job-1, the device reports job-1 twice, then job-2
  and job-3. The uuid job-1 is normalized twice and occurs in no record of the batch;
  job-2 and job-3 occur once each, and the uuids of the batch are pairwise different.
\<close>

theorem batch_uuid_multiplicity_witness:
  "map_option (map uuid)
     (batch_of (main (example_world (single_page [finished_job [(''uuid'', JStr ''job-1'')],
                                     finished_job [(''uuid'', JStr ''job-1'')],
                                     finished_job [(''uuid'', JStr ''job-2'')],
                                     finished_job [(''uuid'', JStr ''job-3'')]]))
        [''10.0.0.5'']
        \<lparr>csv_file = Some [fieldnames, [''job-1'']], sheet_rows = [], mirror_attempts = 0\<rparr>))
     = Some [JStr ''job-2'', JStr ''job-3'']
   \<and> in_uuids (JStr ''job-1'') (load_existing_uuids (Some [fieldnames, [''job-1'']]))
   \<and> count_list [JStr ''job-1'', JStr ''job-1'', JStr ''job-2'', JStr ''job-3''] (JStr ''job-1'') = 2
   \<and> count_list [JStr ''job-2'', JStr ''job-3''] (JStr ''job-1'') = 0
   \<and> count_list [JStr ''job-2'', JStr ''job-3''] (JStr ''job-3'')
       = count_list [JStr ''job-1'', JStr ''job-1'', JStr ''job-2'', JStr ''job-3''] (JStr ''job-3'')
   \<and> distinct [JStr ''job-2'', JStr ''job-3'']"
  using batch_uuid_multiplicity[OF four_jobs_run]
  by (simp add: four_jobs_run batch_of_def example_record_def load_job_1 in_uuids_def)

text \<open>
  C3 as the spec states it fails: a device whose history page lists the job with
  uuid job-1 twice gives a batch with two records of that uuid.
\<close>

theorem batch_uuid_multiplicity_counterexample:
  "map_option (map uuid)
     (batch_of (main (example_world (single_page [finished_job [(''uuid'', JStr ''job-1'')],
                                                  finished_job [(''uuid'', JStr ''job-1'')]]))
        [''10.0.0.5''] no_stores))
   = Some [JStr ''job-1'', JStr ''job-1'']"
  by (simp add: run_defs load_existing_uuids_def batch_of_def)

section \<open>Jobs that are not finished\<close>

lemma terminal_iff:
  "terminal v = (v \<in> set [JStr ''Finished'', JStr ''Aborted''])"
  by (auto simp: terminal_def)

lemma process_print_job_non_terminal:
  "\<not> terminal (dict_get job ''result'' JNull) \<Longrightarrow> process_print_job w p job rs = (None, p, rs)"
  by (simp add: process_print_job_def terminal_iff)

text \<open>
  C4. For a job whose \<^verbatim>\<open>result\<close> is neither \<^verbatim>\<open>Finished\<close> nor \<^verbatim>\<open>Aborted\<close> (a missing
  \<^verbatim>\<open>result\<close> reads as \<^verbatim>\<open>None\<close>), \<^verbatim>\<open>_process_print_job\<close> returns \<^verbatim>\<open>None\<close> and issues no
  request; the loop over a page passes over such a job without any effect; and every
  record in the batch of a run that returns has a terminal result, which is the
  \<^verbatim>\<open>result\<close> of the job it was made from.
\<close>

theorem non_terminal_jobs_skipped:
  "(\<not> terminal (dict_get job ''result'' JNull) \<longrightarrow>
       process_print_job w p job rs = (None, p, rs)
     \<and> process_jobs w K p (JDict job # history) s = process_jobs w K p history s)
   \<and> (process_print_job w p job rs = (Some r, p', rs') \<longrightarrow>
        result r = dict_get job ''result'' JNull \<and> terminal (result r))
   \<and> (main w printer_ips sk = Some (Inr (s', sk')) \<longrightarrow>
        (\<forall>r \<in> set (all_print_jobs s'). terminal (result r)))"
proof (intro conjI impI)
  assume n: "\<not> terminal (dict_get job ''result'' JNull)"
  then show "process_print_job w p job rs = (None, p, rs)"
    by (rule process_print_job_non_terminal)
  from n show "process_jobs w K p (JDict job # history) s = process_jobs w K p history s"
    by (simp add: process_print_job_non_terminal)
next
  assume a: "process_print_job w p job rs = (Some r, p', rs')"
  then have t: "terminal (dict_get job ''result'' JNull)"
    using process_print_job_non_terminal[of job w p rs] by auto
  then have "dict_get job ''result'' (JStr []) = dict_get job ''result'' JNull"
    by (auto simp: terminal_def dict_get_present)
  with ppj_fields(4)[OF a] show "result r = dict_get job ''result'' JNull" by simp
  with t show "terminal (result r)" by simp
next
  assume "main w printer_ips sk = Some (Inr (s', sk'))"
  from main_extends(1)[OF this]
  show "\<forall>r \<in> set (all_print_jobs s'). terminal (result r)"
    by (auto simp: run_extends_def initial_state_def list_all_iff)
qed

text \<open>
  The theorem at work: a job that is still printing is passed over, and a run over a
  page that holds it and a finished job collects the finished one only.
\<close>

lemma printing_run:
  "main (example_world (single_page [JDict [(''uuid'', JStr ''job-9''), (''result'', JStr ''Printing'')],
                                     finished_job [(''uuid'', JStr ''job-1'')]]))
        [''10.0.0.5''] no_stores
   = Some (Inr (\<lparr>all_print_jobs = [example_record (JStr ''job-1'')],
                  normalized = [example_record (JStr ''job-1'')],
                  requests = [(''10.0.0.5'', System), (''10.0.0.5'', History 0 50)]\<rparr>,
                save_jobs (example_world (single_page [JDict [(''uuid'', JStr ''job-9''), (''result'', JStr ''Printing'')],
                                     finished_job [(''uuid'', JStr ''job-1'')]]))
                  [example_record (JStr ''job-1'')] no_stores))"
  by (simp add: run_defs load_existing_uuids_def)

theorem non_terminal_jobs_skipped_witness:
  "\<not> terminal (dict_get [(''uuid'', JStr ''job-9''), (''result'', JStr ''Printing'')] ''result'' JNull)
   \<and> process_print_job
        (example_world (single_page [JDict [(''uuid'', JStr ''job-9''), (''result'', JStr ''Printing'')],
                                     finished_job [(''uuid'', JStr ''job-1'')]]))
        example_printer [(''uuid'', JStr ''job-9''), (''result'', JStr ''Printing'')] []
       = (None, example_printer, [])
   \<and> batch_of (main (example_world (single_page [JDict [(''uuid'', JStr ''job-9''), (''result'', JStr ''Printing'')],
                                     finished_job [(''uuid'', JStr ''job-1'')]]))
        [''10.0.0.5''] no_stores) = Some [example_record (JStr ''job-1'')]
   \<and> terminal (result (example_record (JStr ''job-1'')))"
  using non_terminal_jobs_skipped
     [where job = "[(''uuid'', JStr ''job-9''), (''result'', JStr ''Printing'')]"
        and w = "example_world (single_page [JDict [(''uuid'', JStr ''job-9''), (''result'', JStr ''Printing'')],
                                     finished_job [(''uuid'', JStr ''job-1'')]])"
        and p = example_printer and rs = "[]" and printer_ips = "[''10.0.0.5'']" and sk = no_stores,
      unfolded printing_run]
  by (simp add: printing_run batch_of_def dict_get_def terminal_def)

section \<open>Pagination\<close>

lemma make_request_history:
  "make_request w addr (History offset BATCH_SIZE) rs =
     (history_page w addr offset, rs @ [(addr, History offset BATCH_SIZE)])"
  by (simp add: make_request_def history_page_def)

lemma process_jobs_frame:
  assumes "process_jobs w K p history s = Inr (p', s')"
  shows "ip p' = ip p \<and> prefix (all_print_jobs s) (all_print_jobs s')
         \<and> (\<exists>x. requests s' = requests s @ x \<and> page_requests x = [])"
  using assms
proof (induction history arbitrary: p s)
  case Nil
  then show ?case by simp
next
  case (Cons job history)
  show ?case
  proof (cases job)
    case (JDict d)
    obtain r p1 rs1 where pp: "process_print_job w p d (requests s) = (r, p1, rs1)"
      by (cases "process_print_job w p d (requests s)") auto
    from process_print_job_frame[OF pp] obtain x1 where
      f: "ip p1 = ip p" "rs1 = requests s @ x1" "page_requests x1 = []" by auto
    obtain s1 where
      rec: "process_jobs w K p1 history s1 = Inr (p', s')"
      and s1: "requests s1 = rs1" "prefix (all_print_jobs s) (all_print_jobs s1)"
    proof (cases r)
      case None
      with Cons.prems JDict pp
      have "process_jobs w K p1 history (s\<lparr>requests := rs1\<rparr>) = Inr (p', s')" by simp
      then show ?thesis by (rule that) simp_all
    next
      case (Some rec)
      show ?thesis
      proof (cases "in_uuids (dict_get d ''uuid'' JNull) K")
        case True
        with Cons.prems JDict pp Some
        have "process_jobs w K p1 history
                (s\<lparr>normalized := normalized s @ [rec], requests := rs1\<rparr>) = Inr (p', s')"
          by (simp split: if_splits)
        then show ?thesis by (rule that) simp_all
      next
        case False
        with Cons.prems JDict pp Some
        have "process_jobs w K p1 history
                (s\<lparr>all_print_jobs := all_print_jobs s @ [rec],
                   normalized := normalized s @ [rec], requests := rs1\<rparr>) = Inr (p', s')"
          by (simp split: if_splits)
        then show ?thesis by (rule that) simp_all
      qed
    qed
    from Cons.IH[OF rec] f s1 show ?thesis
      by (auto simp: page_requests_append intro: prefix_order.trans)
  qed (use Cons in simp_all)
qed

lemma page_loop_last:
  assumes "last_page (history_page w (ip p) offset)"
  shows "page_loop w K p offset s =
     (case history_page w (ip p) offset of
        JList history \<Rightarrow>
          (case process_jobs w K p history
                  (s\<lparr>requests := requests s @ [(ip p, History offset BATCH_SIZE)]\<rparr>) of
             Inl e \<Rightarrow> Some (Inl e)
           | Inr x \<Rightarrow> Some (Inr x))
      | _ \<Rightarrow> Some (Inr (p, s\<lparr>requests := requests s @ [(ip p, History offset BATCH_SIZE)]\<rparr>)))"
  using assms
  by (subst page_loop.simps)
     (auto simp: make_request_history last_page_def split: json.splits sum.splits)

lemma page_loop_full:
  assumes "\<not> last_page (history_page w (ip p) offset)"
  shows "\<exists>history. history_page w (ip p) offset = JList history \<and>
     page_loop w K p offset s =
       (case process_jobs w K p history
               (s\<lparr>requests := requests s @ [(ip p, History offset BATCH_SIZE)]\<rparr>) of
          Inl e \<Rightarrow> Some (Inl e)
        | Inr (p', s') \<Rightarrow> page_loop w K p' (offset + BATCH_SIZE) s')"
  using assms
  by (subst page_loop.simps)
     (auto simp: make_request_history last_page_def split: json.splits sum.splits)

lemma page_loop_terminates:
  assumes "last_page (history_page w (ip p) (offset + k * BATCH_SIZE))"
  shows "page_loop w K p offset s \<noteq> None"
  using assms
proof (induction k arbitrary: offset p s)
  case 0
  then show ?case
    by (simp add: page_loop_last split: json.splits sum.splits)
next
  case (Suc k)
  show ?case
  proof (cases "last_page (history_page w (ip p) offset)")
    case True
    then show ?thesis
      by (simp add: page_loop_last split: json.splits sum.splits)
  next
    case False
    from page_loop_full[OF False, of K s] obtain history where
      h: "page_loop w K p offset s =
       (case process_jobs w K p history
               (s\<lparr>requests := requests s @ [(ip p, History offset BATCH_SIZE)]\<rparr>) of
          Inl e \<Rightarrow> Some (Inl e)
        | Inr (p', s') \<Rightarrow> page_loop w K p' (offset + BATCH_SIZE) s')" by blast
    show ?thesis
    proof (cases "process_jobs w K p history
               (s\<lparr>requests := requests s @ [(ip p, History offset BATCH_SIZE)]\<rparr>)")
      case (Inl e)
      with h show ?thesis by simp
    next
      case (Inr ps)
      obtain p1 s1 where ps: "ps = (p1, s1)" by (cases ps)
      from process_jobs_frame[OF Inr[unfolded ps]] have "ip p1 = ip p" by simp
      with Suc.prems have "last_page (history_page w (ip p1) (offset + BATCH_SIZE + k * BATCH_SIZE))"
        by (simp add: ac_simps)
      from Suc.IH[OF this] h Inr ps show ?thesis by simp
    qed
  qed
qed

lemma page_loop_requests:
  assumes "last_page (history_page w (ip p) (offset + k * BATCH_SIZE))"
    and "\<forall>j<k. \<not> last_page (history_page w (ip p) (offset + j * BATCH_SIZE))"
    and "page_loop w K p offset s = Some (Inr (p', s'))"
  shows "\<exists>x. requests s' = requests s @ x
            \<and> page_requests x = map (\<lambda>j. (offset + j * BATCH_SIZE, BATCH_SIZE)) [0..<Suc k]"
  using assms
proof (induction k arbitrary: offset p s)
  case 0
  let ?s0 = "s\<lparr>requests := requests s @ [(ip p, History offset BATCH_SIZE)]\<rparr>"
  from 0(1) have l: "last_page (history_page w (ip p) offset)" by simp
  show ?case
  proof (cases "history_page w (ip p) offset")
    case (JList history)
    with 0(3) l have "process_jobs w K p history ?s0 = Inr (p', s')"
      by (simp add: page_loop_last split: sum.splits)
    from process_jobs_frame[OF this] obtain x where
      "requests s' = requests s @ ([(ip p, History offset BATCH_SIZE)] @ x)" "page_requests x = []"
      by auto
    then have "requests s' = requests s @ ([(ip p, History offset BATCH_SIZE)] @ x)
       \<and> page_requests ([(ip p, History offset BATCH_SIZE)] @ x) = [(offset, BATCH_SIZE)]"
      by simp
    then show ?thesis by (intro exI[of _ "[(ip p, History offset BATCH_SIZE)] @ x"]) simp
  qed (use 0(3) l in \<open>auto simp: page_loop_last\<close>)
next
  case (Suc k)
  let ?s0 = "s\<lparr>requests := requests s @ [(ip p, History offset BATCH_SIZE)]\<rparr>"
  from Suc.prems(2) have "\<not> last_page (history_page w (ip p) offset)"
    by (metis add.right_neutral mult_zero_left zero_less_Suc)
  from page_loop_full[OF this, of K s] obtain history where
    h: "page_loop w K p offset s =
       (case process_jobs w K p history ?s0 of
          Inl e \<Rightarrow> Some (Inl e)
        | Inr (p', s') \<Rightarrow> page_loop w K p' (offset + BATCH_SIZE) s')" by blast
  with Suc.prems(3) obtain p1 s1 where
    pj: "process_jobs w K p history ?s0 = Inr (p1, s1)"
    and pl: "page_loop w K p1 (offset + BATCH_SIZE) s1 = Some (Inr (p', s'))"
    by (auto split: sum.splits)
  from process_jobs_frame[OF pj] obtain x1 where
    i: "ip p1 = ip p"
    and x1: "requests s1 = requests s @ [(ip p, History offset BATCH_SIZE)] @ x1" "page_requests x1 = []"
    by auto
  have a: "last_page (history_page w (ip p1) (offset + BATCH_SIZE + k * BATCH_SIZE))"
    using Suc.prems(1) i by (simp add: ac_simps)
  have b: "\<forall>j<k. \<not> last_page (history_page w (ip p1) (offset + BATCH_SIZE + j * BATCH_SIZE))"
  proof (intro allI impI)
    fix j assume "j < k"
    then have "Suc j < Suc k" by simp
    with Suc.prems(2) have "\<not> last_page (history_page w (ip p) (offset + Suc j * BATCH_SIZE))"
      by blast
    then show "\<not> last_page (history_page w (ip p1) (offset + BATCH_SIZE + j * BATCH_SIZE))"
      using i by (simp add: ac_simps)
  qed
  from Suc.IH[OF a b pl] obtain x2 where
    x2: "requests s' = requests s1 @ x2"
      "page_requests x2 = map (\<lambda>j. (offset + BATCH_SIZE + j * BATCH_SIZE, BATCH_SIZE)) [0..<Suc k]"
    by blast
  have "page_requests ([(ip p, History offset BATCH_SIZE)] @ x1 @ x2) =
        (offset, BATCH_SIZE) # map (\<lambda>j. (offset + BATCH_SIZE + j * BATCH_SIZE, BATCH_SIZE)) [0..<Suc k]"
    using x1(2) x2(2) by (simp add: page_requests_append)
  also have "\<dots> = map (\<lambda>j. (offset + j * BATCH_SIZE, BATCH_SIZE)) [0..<Suc (Suc k)]"
    by (simp add: map_upt_Suc[of _ "Suc k"] ac_simps del: upt_Suc)
  finally have "page_requests ([(ip p, History offset BATCH_SIZE)] @ x1 @ x2) =
     map (\<lambda>j. (offset + j * BATCH_SIZE, BATCH_SIZE)) [0..<Suc (Suc k)]" .
  moreover have "requests s' = requests s @ ([(ip p, History offset BATCH_SIZE)] @ x1 @ x2)"
    using x1(1) x2(1) by simp
  ultimately show ?case by blast
qed

text \<open>
  C5. Take a device and the loop at some offset (0 when the loop starts). If the page
  at some later step, offset + k * 50, is shorter than the page size, or is no list
  at all (an empty page and a failed request included), the \<^verbatim>\<open>while True\<close> loop
  returns (normally or with an exception); it does not run forever. If that page is
  the first such page and the loop exits normally, the history requests it issued are
  exactly those for the offsets offset, offset + 50, ..., offset + k * 50, each with
  count 50: one request per iteration, the offset advanced by the page size each
  time, the last request being the one that got the short page.
\<close>

theorem pagination_terminates:
  "(last_page (history_page w (ip p) (offset + k * BATCH_SIZE)) \<longrightarrow>
      page_loop w K p offset s \<noteq> None)
   \<and> (last_page (history_page w (ip p) (offset + k * BATCH_SIZE))
      \<and> (\<forall>j<k. \<not> last_page (history_page w (ip p) (offset + j * BATCH_SIZE)))
      \<and> page_loop w K p offset s = Some (Inr (p', s')) \<longrightarrow>
      (\<exists>x. requests s' = requests s @ x
          \<and> page_requests x = map (\<lambda>j. (offset + j * BATCH_SIZE, BATCH_SIZE)) [0..<Suc k]))"
  using page_loop_terminates[of w p offset k K s] page_loop_requests[of w p offset k K s p' s']
  by blast

text \<open>
  The theorem at work on the device with 53 jobs: the first page is full, the second
  is short, the loop returns with 53 records after requesting offsets 0 and 50.
\<close>

lemma process_jobs_finished:
  assumes "cached_name p = JStr ''UM3''"
  shows "process_jobs (example_world pages) {} p (finished_job [(''uuid'', JStr u)] # history) s
     = process_jobs (example_world pages) {} p history
         (s\<lparr>all_print_jobs := all_print_jobs s @ [example_record (JStr u)],
            normalized := normalized s @ [example_record (JStr u)]\<rparr>)"
  using assms by (simp add: eval_defs finished_job_def example_record_def)

lemma process_jobs_replicate:
  assumes "cached_name p = JStr ''UM3''"
  shows "process_jobs (example_world pages) {} p (replicate n (finished_job [(''uuid'', JStr u)])) s
     = Inr (p, s\<lparr>all_print_jobs := all_print_jobs s @ replicate n (example_record (JStr u)),
                  normalized := normalized s @ replicate n (example_record (JStr u))\<rparr>)"
proof (induction n arbitrary: s)
  case 0
  then show ?case by simp
next
  case (Suc n)
  show ?case
    by (simp add: process_jobs_finished[OF assms] Suc.IH replicate_app_Cons_same
          del: process_jobs.simps(2))
qed

lemma two_pages_loop:
  "page_loop (example_world two_pages) {} \<lparr>ip = ''10.0.0.5'', cached_name = JStr ''UM3''\<rparr> 0 initial_state
   = Some (Inr (\<lparr>ip = ''10.0.0.5'', cached_name = JStr ''UM3''\<rparr>,
        \<lparr>all_print_jobs = replicate 50 (example_record (JStr ''job-1''))
            @ [example_record (JStr ''job-51''), example_record (JStr ''job-52''),
               example_record (JStr ''job-53'')],
         normalized = replicate 50 (example_record (JStr ''job-1''))
            @ [example_record (JStr ''job-51''), example_record (JStr ''job-52''),
               example_record (JStr ''job-53'')],
         requests = [(''10.0.0.5'', History 0 50), (''10.0.0.5'', History 50 50)]\<rparr>))"
  by (simp add: page_loop.simps make_request_def example_world_sel two_pages_def BATCH_SIZE_def
        process_jobs_replicate process_jobs_finished initial_state_def
        del: process_jobs.simps(2))

theorem pagination_terminates_witness:
  "last_page (history_page (example_world two_pages) ''10.0.0.5'' 50)
   \<and> \<not> last_page (history_page (example_world two_pages) ''10.0.0.5'' 0)
   \<and> page_loop (example_world two_pages) {} \<lparr>ip = ''10.0.0.5'', cached_name = JStr ''UM3''\<rparr> 0
        initial_state \<noteq> None
   \<and> map_option (map_sum id (\<lambda>(p, s). (length (all_print_jobs s), page_requests (requests s))))
        (page_loop (example_world two_pages) {} \<lparr>ip = ''10.0.0.5'', cached_name = JStr ''UM3''\<rparr> 0
           initial_state)
       = Some (Inr (53, [(0, 50), (50, 50)]))"
  using pagination_terminates
    [where w = "example_world two_pages" and p = "\<lparr>ip = ''10.0.0.5'', cached_name = JStr ''UM3''\<rparr>"
       and offset = 0 and k = 1 and K = "{}" and s = initial_state,
     unfolded two_pages_loop]
  by (simp add: two_pages_loop history_page_def last_page_def example_world_sel two_pages_def
        BATCH_SIZE_def)

section \<open>A failure in the middle of the sweep\<close>





lemma failed_request_no_list:
  "http w addr (History offset BATCH_SIZE) = RequestException \<Longrightarrow>
     history_page w addr offset = JDict []"
  by (simp add: history_page_def)























section \<open>Running twice\<close>

lemma same_obs_refl: "same_obs s s"
  by (simp add: same_obs_def)

lemma process_jobs_sim:
  assumes "same_obs s t"
  shows "case process_jobs w K p history s of
           Inl e \<Rightarrow> process_jobs w K' p history t = Inl e
         | Inr (p', s') \<Rightarrow> (\<exists>t'. process_jobs w K' p history t = Inr (p', t') \<and> same_obs s' t')"
  using assms
proof (induction history arbitrary: p s t)
  case Nil
  then show ?case by simp
next
  case (Cons job history)
  have rq: "requests t = requests s" using Cons.prems by (simp add: same_obs_def)
  show ?case
  proof (cases job)
    case (JDict d)
    obtain r p1 rs1 where pp: "process_print_job w p d (requests s) = (r, p1, rs1)"
      by (cases "process_print_job w p d (requests s)") auto
    show ?thesis
    proof (cases r)
      case None
      have so: "same_obs (s\<lparr>requests := rs1\<rparr>) (t\<lparr>requests := rs1\<rparr>)"
        using Cons.prems by (simp add: same_obs_def)
      have a: "process_jobs w K p (job # history) s
                 = process_jobs w K p1 history (s\<lparr>requests := rs1\<rparr>)"
        using JDict pp None by simp
      have b: "process_jobs w K' p (job # history) t
                 = process_jobs w K' p1 history (t\<lparr>requests := rs1\<rparr>)"
        using JDict pp None rq by simp
      from Cons.IH[OF so, of p1] show ?thesis
        unfolding a b .
    next
      case (Some rec)
      show ?thesis
      proof (cases "hashable (dict_get d ''uuid'' JNull)")
        case False
        with JDict pp Some rq show ?thesis by simp
      next
        case True
        define s1 where "s1 = (if in_uuids (dict_get d ''uuid'' JNull) K
          then s\<lparr>normalized := normalized s @ [rec], requests := rs1\<rparr>
          else s\<lparr>all_print_jobs := all_print_jobs s @ [rec],
                 normalized := normalized s @ [rec], requests := rs1\<rparr>)"
        define t1 where "t1 = (if in_uuids (dict_get d ''uuid'' JNull) K'
          then t\<lparr>normalized := normalized t @ [rec], requests := rs1\<rparr>
          else t\<lparr>all_print_jobs := all_print_jobs t @ [rec],
                 normalized := normalized t @ [rec], requests := rs1\<rparr>)"
        have a: "process_jobs w K p (job # history) s = process_jobs w K p1 history s1"
          using JDict pp Some True by (simp add: s1_def)
        have b: "process_jobs w K' p (job # history) t = process_jobs w K' p1 history t1"
          using JDict pp Some True rq by (simp add: t1_def)
        have "same_obs s1 t1"
          using Cons.prems by (simp add: same_obs_def s1_def t1_def)
        from Cons.IH[OF this, of p1] show ?thesis
          unfolding a b .
      qed
    qed
  qed (use Cons.IH[OF Cons.prems, of p] in \<open>simp_all cong: sum.case_cong\<close>)
qed

lemma page_loop_sim_aux:
  assumes "page_loop w K p offset s = Some y"
  shows "\<forall>t. same_obs s t \<longrightarrow>
           (case y of
              Inl e \<Rightarrow> page_loop w K' p offset t = Some (Inl e)
            | Inr (p', s') \<Rightarrow>
                (\<exists>t'. page_loop w K' p offset t = Some (Inr (p', t')) \<and> same_obs s' t'))"
proof (rule page_loop.raw_induct
    [where P = "\<lambda>w K p offset s y. \<forall>t. same_obs s t \<longrightarrow>
           (case y of
              Inl e \<Rightarrow> page_loop w K' p offset t = Some (Inl e)
            | Inr (p', s') \<Rightarrow>
                (\<exists>t'. page_loop w K' p offset t = Some (Inr (p', t')) \<and> same_obs s' t'))",
     OF _ assms], goal_cases)
  case (1 f w K p offset s y)
  show ?case
  proof (intro allI impI)
    fix t assume so: "same_obs s t"
    then have rq: "requests t = requests s" by (simp add: same_obs_def)
    let ?rs = "requests s @ [(ip p, History offset BATCH_SIZE)]"
    have so0: "same_obs (s\<lparr>requests := ?rs\<rparr>) (t\<lparr>requests := ?rs\<rparr>)"
      using so by (simp add: same_obs_def)
    show "case y of
              Inl e \<Rightarrow> page_loop w K' p offset t = Some (Inl e)
            | Inr (p', s') \<Rightarrow>
                (\<exists>t'. page_loop w K' p offset t = Some (Inr (p', t')) \<and> same_obs s' t')"
    proof (cases "history_page w (ip p) offset")
      case (JList history)
      note sim = process_jobs_sim[OF so0, where w = w and K = K and p = p and history = history and K' = K']
      show ?thesis
      proof (cases "process_jobs w K p history (s\<lparr>requests := ?rs\<rparr>)")
        case (Inl e)
        with sim have "process_jobs w K' p history (t\<lparr>requests := ?rs\<rparr>) = Inl e" by simp
        with 1(2) JList Inl rq show ?thesis
          by (subst page_loop.simps) (auto simp: make_request_history)
      next
        case (Inr ps)
        obtain p1 s1 where ps: "ps = (p1, s1)" by (cases ps)
        with sim Inr obtain t1 where
          t1: "process_jobs w K' p history (t\<lparr>requests := ?rs\<rparr>) = Inr (p1, t1)" "same_obs s1 t1"
          by auto
        show ?thesis
        proof (cases "length history < BATCH_SIZE")
          case True
          with 1(2) JList Inr ps have "y = Inr (p1, s1)" by (simp add: make_request_history)
          moreover have "page_loop w K' p offset t = Some (Inr (p1, t1))"
            using JList t1(1) True rq
            by (subst page_loop.simps) (simp add: make_request_history)
          ultimately show ?thesis using t1(2) by simp
        next
          case False
          with 1(2) JList Inr ps have "f w K p1 (offset + BATCH_SIZE) s1 = Some y"
            by (simp add: make_request_history)
          from 1(1)[OF this, rule_format, OF t1(2)]
          have ih: "case y of
              Inl e \<Rightarrow> page_loop w K' p1 (offset + BATCH_SIZE) t1 = Some (Inl e)
            | Inr (p', s') \<Rightarrow>
                (\<exists>t'. page_loop w K' p1 (offset + BATCH_SIZE) t1 = Some (Inr (p', t'))
                      \<and> same_obs s' t')" .
          have eq: "page_loop w K' p offset t = page_loop w K' p1 (offset + BATCH_SIZE) t1"
            using JList t1(1) False rq
            by (subst page_loop.simps) (simp add: make_request_history)
          from ih show ?thesis unfolding eq .
        qed
      qed
    next
      case JNull
      with 1(2) so rq show ?thesis
        by (subst page_loop.simps) (auto simp: make_request_history same_obs_def)
    next
      case (JBool x)
      with 1(2) so rq show ?thesis
        by (subst page_loop.simps) (auto simp: make_request_history same_obs_def)
    next
      case (JInt x)
      with 1(2) so rq show ?thesis
        by (subst page_loop.simps) (auto simp: make_request_history same_obs_def)
    next
      case (JStr x)
      with 1(2) so rq show ?thesis
        by (subst page_loop.simps) (auto simp: make_request_history same_obs_def)
    next
      case (JDict x)
      with 1(2) so rq show ?thesis
        by (subst page_loop.simps) (auto simp: make_request_history same_obs_def)
    qed
  qed
qed

lemma page_loop_sim:
  assumes "page_loop w K p offset s = Some (Inr (p', s'))" and "same_obs s t"
  shows "\<exists>t'. page_loop w K' p offset t = Some (Inr (p', t')) \<and> same_obs s' t'"
  using page_loop_sim_aux[OF assms(1), of K'] assms(2) by simp

lemma sweep_sim:
  assumes "sweep w K ps s = Some (Inr s')" and "same_obs s t"
  shows "\<exists>t'. sweep w K' ps t = Some (Inr t') \<and> same_obs s' t'"
  using assms
proof (induction ps arbitrary: s t)
  case Nil
  then show ?case by simp
next
  case (Cons p ps)
  from Cons.prems(1) obtain p1 s1 where
    c: "collect_printer w K p s = Some (Inr (p1, s1))" and r: "sweep w K ps s1 = Some (Inr s')"
    by (auto split: option.splits sum.splits)
  have rq: "requests t = requests s" using Cons.prems(2) by (simp add: same_obs_def)
  obtain n p0 rs0 where n: "PrinterAPI_name w p (requests s) = (n, p0, rs0)"
    by (cases "PrinterAPI_name w p (requests s)") auto
  with c have pl: "page_loop w K p0 0 (s\<lparr>requests := rs0\<rparr>) = Some (Inr (p1, s1))"
    by (simp add: collect_printer_def)
  have "same_obs (s\<lparr>requests := rs0\<rparr>) (t\<lparr>requests := rs0\<rparr>)"
    using Cons.prems(2) by (simp add: same_obs_def)
  from page_loop_sim[OF pl this, of K'] obtain t1 where
    t1: "page_loop w K' p0 0 (t\<lparr>requests := rs0\<rparr>) = Some (Inr (p1, t1))" "same_obs s1 t1"
    by blast
  then have c': "collect_printer w K' p t = Some (Inr (p1, t1))"
    using n rq by (simp add: collect_printer_def)
  from Cons.IH[OF r t1(2)] obtain t' where "sweep w K' ps t1 = Some (Inr t')" "same_obs s' t'"
    by blast
  with c' show ?case by simp
qed

text \<open>What the next run loads from the log.\<close>

lemma csv_reader_append:
  "csv_reader (a @ b) \<noteq> None \<longleftrightarrow> csv_reader a \<noteq> None \<and> csv_reader b \<noteq> None"
  by (auto simp: csv_reader_def Let_def)

lemma csv_reader_Cons:
  "csv_reader (row # rows) \<noteq> None \<Longrightarrow>
     csv_reader (row # rows) = Some (map universal_newlines row # map (map universal_newlines) rows)"
  by (auto simp: csv_reader_def Let_def split: if_splits)

lemma load_fieldnames:
  assumes "csv_reader (fieldnames # rows) \<noteq> None"
  shows "load_existing_uuids (Some (fieldnames # rows)) =
     set (concat (map (row_uuid fieldnames)
       (filter (\<lambda>row. row \<noteq> []) (map (map universal_newlines) rows))))"
proof -
  have "''uuid'' \<in> set fieldnames" by (simp add: fieldnames_def)
  then show ?thesis
    by (simp add: load_existing_uuids_def csv_reader_Cons[OF assms] universal_newlines_fieldnames)
qed

lemma row_uuid_csv_row:
  "uuid r = JStr u \<Longrightarrow> u \<noteq> [] \<Longrightarrow> CHR 0x0D \<notin> set u \<Longrightarrow>
     row_uuid fieldnames (map universal_newlines (csv_row w r)) = [u]"
  by (simp add: row_uuid_def fieldnames_def csv_row_def sheet_row_def cell_def universal_newlines_id)

lemma csv_row_nonempty: "map universal_newlines (csv_row w r) \<noteq> []"
  by (simp add: csv_row_def sheet_row_def)

lemma in_load_appended:
  assumes "r \<in> set batch" and "uuid r = JStr u" and "u \<noteq> []" and "CHR 0x0D \<notin> set u"
    and "csv_reader (fieldnames # rows @ map (csv_row w) batch) \<noteq> None"
  shows "u \<in> load_existing_uuids (Some (fieldnames # rows @ map (csv_row w) batch))"
proof -
  let ?row = "map universal_newlines (csv_row w r)"
  let ?L = "filter (\<lambda>row. row \<noteq> [])
      (map (map universal_newlines) (rows @ map (csv_row w) batch))"
  have a: "u \<in> set (row_uuid fieldnames ?row)"
    using assms(2-4) by (simp add: row_uuid_csv_row)
  have "csv_row w r \<in> set (rows @ map (csv_row w) batch)"
    using assms(1) by simp
  then have "?row \<in> set (map (map universal_newlines) (rows @ map (csv_row w) batch))"
    unfolding set_map by (rule imageI)
  then have b: "?row \<in> set ?L"
    unfolding set_filter using csv_row_nonempty[of w r] by blast
  from a b have "u \<in> set (concat (map (row_uuid fieldnames) ?L))"
    unfolding set_concat set_map by blast
  then show ?thesis
    unfolding load_fieldnames[OF assms(5)] .
qed

lemma load_mono:
  assumes "csv_reader (fieldnames # rows @ extra) \<noteq> None"
  shows "load_existing_uuids (Some (fieldnames # rows))
     \<subseteq> load_existing_uuids (Some (fieldnames # rows @ extra))"
proof -
  from assms have "csv_reader ((fieldnames # rows) @ extra) \<noteq> None" by simp
  then have a: "csv_reader (fieldnames # rows) \<noteq> None"
    unfolding csv_reader_append by simp
  show ?thesis
    unfolding load_fieldnames[OF a] load_fieldnames[OF assms] by auto
qed

text \<open>
  C2, as the code has it. Let a first run return, with a disk that does not fail, on
  a log that is absent or begins with the declared header row; let every record in
  the batch of that run carry a uuid that is a non-empty string without a carriage
  return; and let the log the run leaves be one the csv reader reads to its end (no
  cell beyond the field size limit). Then a second run against the same devices,
  started from the stores the first run left, returns too, normalizes the same
  records and collects none of them: its batch is empty and the stores stay as they
  are.
\<close>

theorem second_run_emits_nothing:
  assumes run1: "main w printer_ips sk = Some (Inr (s1, sk1))"
    and disk: "disk w = DiskOk"
    and hdr: "csv_file sk = None \<or> (\<exists>rows. csv_file sk = Some (fieldnames # rows))"
    and uu: "\<forall>r \<in> set (all_print_jobs s1). \<exists>u. uuid r = JStr u \<and> u \<noteq> [] \<and> CHR 0x0D \<notin> set u"
    and readable: "\<forall>written. csv_file sk1 = Some written \<longrightarrow> csv_reader written \<noteq> None"
  shows "\<exists>s2. main w printer_ips sk1 = Some (Inr (s2, sk1))
             \<and> all_print_jobs s2 = [] \<and> normalized s2 = normalized s1"
proof -
  let ?K = "load_existing_uuids (csv_file sk)"
  let ?K' = "load_existing_uuids (csv_file sk1)"
  let ?ps = "map (\<lambda>addr. \<lparr>ip = addr, cached_name = JNull\<rparr>) printer_ips"
  let ?new = "map (csv_row w) (all_print_jobs s1)"
  from run1 have sw: "sweep w ?K ?ps initial_state = Some (Inr s1)"
    by (auto simp: main_def collect_logs_def UltimakerLogger_def split: option.splits sum.splits)
  from main_extends[OF run1] have
    b1: "all_print_jobs s1 = filter (\<lambda>r. \<not> in_uuids (uuid r) ?K) (normalized s1)"
    and sk1: "sk1 = (if all_print_jobs s1 \<noteq> [] then save_jobs w (all_print_jobs s1) sk else sk)"
    by (auto simp: run_extends_def initial_state_def)
  from sweep_sim[OF sw same_obs_refl, of ?K'] obtain s2 where
    s2: "sweep w ?K' ?ps initial_state = Some (Inr s2)" and so: "same_obs s1 s2" by blast
  from so have n: "normalized s2 = normalized s1" by (simp add: same_obs_def)
  from sweep_extends[OF s2 load_existing_uuids_nonempty]
  have b2: "all_print_jobs s2 = filter (\<lambda>r. \<not> in_uuids (uuid r) ?K') (normalized s2)"
    by (auto simp: run_extends_def initial_state_def)
  have saved: "csv_file (save_jobs w (all_print_jobs s1) sk) =
      Some (case csv_file sk of None \<Rightarrow> fieldnames # ?new | Some rows \<Rightarrow> rows @ ?new)"
    by (simp add: save_jobs_cases(1)[OF write_csv_ok[OF disk]] update_google_sheets_frame)
  have known: "in_uuids (uuid r) ?K'" if r: "r \<in> set (normalized s1)" for r
  proof (cases "in_uuids (uuid r) ?K")
    case True
    then obtain u where u: "uuid r = JStr u" and uK: "u \<in> ?K"
      by (cases "uuid r") (simp_all add: in_uuids_def)
    from uK have "csv_file sk \<noteq> None"
      by (cases "csv_file sk") (simp_all add: load_existing_uuids_def)
    with hdr obtain rows where rows: "csv_file sk = Some (fieldnames # rows)" by auto
    have "csv_file sk1 = Some (fieldnames # rows @ [])
          \<or> csv_file sk1 = Some (fieldnames # rows @ ?new)"
      using sk1 saved rows by (auto split: if_splits)
    then have "?K \<subseteq> ?K'"
    proof
      assume "csv_file sk1 = Some (fieldnames # rows @ [])"
      with rows show ?thesis by simp
    next
      assume f: "csv_file sk1 = Some (fieldnames # rows @ ?new)"
      with readable have "csv_reader (fieldnames # rows @ ?new) \<noteq> None" by simp
      from load_mono[OF this] f rows show ?thesis by simp
    qed
    with uK show ?thesis using u by (auto simp: in_uuids_def)
  next
    case False
    with r b1 have rb: "r \<in> set (all_print_jobs s1)" by simp
    then have ne: "all_print_jobs s1 \<noteq> []" by auto
    from uu rb obtain u where u: "uuid r = JStr u" "u \<noteq> []" "CHR 0x0D \<notin> set u" by blast
    from hdr show ?thesis
    proof
      assume "csv_file sk = None"
      with sk1 ne saved have f: "csv_file sk1 = Some (fieldnames # [] @ ?new)" by simp
      with readable have "csv_reader (fieldnames # [] @ ?new) \<noteq> None" by simp
      from in_load_appended[OF rb u this] f show ?thesis using u by (simp add: in_uuids_def)
    next
      assume "\<exists>rows. csv_file sk = Some (fieldnames # rows)"
      then obtain rows where rows: "csv_file sk = Some (fieldnames # rows)" by blast
      with sk1 ne saved have f: "csv_file sk1 = Some (fieldnames # rows @ ?new)" by simp
      with readable have "csv_reader (fieldnames # rows @ ?new) \<noteq> None" by simp
      from in_load_appended[OF rb u this] f show ?thesis using u by (simp add: in_uuids_def)
    qed
  qed
  have e: "all_print_jobs s2 = []"
    unfolding b2 n using known by (simp add: filter_empty_conv)
  have "main w printer_ips sk1 = Some (Inr (s2, sk1))"
    using s2 e by (simp add: main_def collect_logs_def UltimakerLogger_def)
  with e n show ?thesis by blast
qed

lemma readable_after_two_jobs:
  "csv_reader [fieldnames, [''job-1''],
       csv_row (example_world pages) (example_record (JStr ''job-2''))] \<noteq> None"
  by (simp add: csv_reader_def Let_def field_size_limit_def fieldnames_def csv_row_def
        sheet_row_def cell_def example_record_def example_world_sel)

text \<open>
  The theorem at work: the log holds job-1, the device reports job-1 and job-2. The
  first run collects job-2, the second run collects nothing.
\<close>

theorem second_run_emits_nothing_witness:
  "batch_of (main (example_world (single_page [finished_job [(''uuid'', JStr ''job-1'')],
                                               finished_job [(''uuid'', JStr ''job-2'')]]))
        [''10.0.0.5'']
        \<lparr>csv_file = Some [fieldnames, [''job-1'']], sheet_rows = [], mirror_attempts = 0\<rparr>)
     = Some [example_record (JStr ''job-2'')]
   \<and> batch_of (run_twice (example_world (single_page [finished_job [(''uuid'', JStr ''job-1'')],
                                               finished_job [(''uuid'', JStr ''job-2'')]]))
        [''10.0.0.5'']
        \<lparr>csv_file = Some [fieldnames, [''job-1'']], sheet_rows = [], mirror_attempts = 0\<rparr>)
     = Some []"
proof -
  let ?w = "example_world (single_page [finished_job [(''uuid'', JStr ''job-1'')],
                                        finished_job [(''uuid'', JStr ''job-2'')]])"
  let ?sk = "\<lparr>csv_file = Some [fieldnames, [''job-1'']], sheet_rows = [], mirror_attempts = 0\<rparr>"
  have h1: "disk ?w = DiskOk" by (simp add: example_world_sel)
  have h2: "csv_file ?sk = None \<or> (\<exists>rows. csv_file ?sk = Some (fieldnames # rows))" by simp
  have h3: "\<forall>r \<in> set (all_print_jobs \<lparr>all_print_jobs = [example_record (JStr ''job-2'')],
                  normalized = [example_record (JStr ''job-1''), example_record (JStr ''job-2'')],
                  requests = [(''10.0.0.5'', System), (''10.0.0.5'', History 0 50)]\<rparr>).
              \<exists>u. uuid r = JStr u \<and> u \<noteq> [] \<and> CHR 0x0D \<notin> set u"
    by (simp add: example_record_def)
  have f: "csv_file (save_jobs ?w [example_record (JStr ''job-2'')] ?sk)
             = Some [fieldnames, [''job-1''], csv_row ?w (example_record (JStr ''job-2''))]"
    by (simp add: save_jobs_def write_csv_def update_google_sheets_def example_world_sel Let_def)
  have h4: "\<forall>written. csv_file (save_jobs ?w [example_record (JStr ''job-2'')] ?sk) = Some written
              \<longrightarrow> csv_reader written \<noteq> None"
    unfolding f using readable_after_two_jobs by simp
  from second_run_emits_nothing[OF two_jobs_run h1 h2 h3 h4] obtain s2 where
    "main ?w [''10.0.0.5''] (save_jobs ?w [example_record (JStr ''job-2'')] ?sk)
       = Some (Inr (s2, save_jobs ?w [example_record (JStr ''job-2'')] ?sk))"
    "all_print_jobs s2 = []"
    by blast
  then show ?thesis
    by (simp add: run_twice_def two_jobs_run batch_of_def)
qed

text \<open>Four devices whose only job is collected by the first run and again by the second.\<close>

lemma rerun_no_uuid:
  "batch_of (run_twice (example_world (single_page [finished_job []])) [''10.0.0.5''] no_stores)
     = Some [example_record (JStr [])]"
  by (simp add: run_twice_def run_defs batch_of_def load_existing_uuids_def save_jobs_def
        write_csv_def update_google_sheets_def csv_row_def sheet_row_def cell_def row_uuid_def
        fieldnames_def csv_reader_def field_size_limit_def Let_def)

lemma rerun_empty_log:
  "batch_of (run_twice (example_world (single_page [finished_job [(''uuid'', JStr ''job-1'')]]))
        [''10.0.0.5''] \<lparr>csv_file = Some [], sheet_rows = [], mirror_attempts = 0\<rparr>)
     = Some [example_record (JStr ''job-1'')]"
  by (simp add: run_twice_def run_defs batch_of_def load_existing_uuids_def save_jobs_def
        write_csv_def update_google_sheets_def csv_row_def sheet_row_def cell_def row_uuid_def
        fieldnames_def csv_reader_def field_size_limit_def Let_def)

lemma rerun_carriage_return:
  "batch_of (run_twice (example_world (single_page
        [finished_job [(''uuid'', JStr [CHR ''j'', CHR ''o'', CHR ''b'', CHR 0x0D, CHR ''1''])]]))
        [''10.0.0.5''] no_stores)
     = Some [example_record (JStr [CHR ''j'', CHR ''o'', CHR ''b'', CHR 0x0D, CHR ''1''])]"
  by (simp add: run_twice_def run_defs batch_of_def load_existing_uuids_def save_jobs_def
        write_csv_def update_google_sheets_def csv_row_def sheet_row_def cell_def row_uuid_def
        fieldnames_def csv_reader_def field_size_limit_def Let_def)

lemma rerun_long_cell:
  "batch_of (run_twice (example_world (single_page
        [finished_job [(''uuid'', JStr (replicate 131073 (CHR ''a'')))]]))
        [''10.0.0.5''] no_stores)
     = Some [example_record (JStr (replicate 131073 (CHR ''a'')))]"
  by (simp add: run_twice_def run_defs batch_of_def load_existing_uuids_def save_jobs_def
        write_csv_def update_google_sheets_def csv_row_def sheet_row_def cell_def row_uuid_def
        fieldnames_def csv_reader_def field_size_limit_def Let_def universal_newlines_id)

text \<open>
  C2 as the spec states it fails. A finished job that carries no uuid is written to
  the log with an empty uuid cell, which the next run does not load: the second run
  collects the job again. When the log exists but is empty, the first run appends
  its rows without a header, the next run reads the first data row as the header and
  loads nothing: the second run collects job-1 again. A uuid with a carriage return
  is read back with a line feed in its place, so the job is not recognized and is
  collected again. And a uuid of 131073 characters makes the reader raise on the
  log the first run wrote, the handler leaves the empty set, and the job is
  collected again.
\<close>

theorem second_run_emits_nothing_counterexample:
  "batch_of (run_twice (example_world (single_page [finished_job []])) [''10.0.0.5''] no_stores)
     = Some [example_record (JStr [])]
   \<and> batch_of (run_twice (example_world (single_page [finished_job [(''uuid'', JStr ''job-1'')]]))
        [''10.0.0.5''] \<lparr>csv_file = Some [], sheet_rows = [], mirror_attempts = 0\<rparr>)
     = Some [example_record (JStr ''job-1'')]
   \<and> batch_of (run_twice (example_world (single_page
        [finished_job [(''uuid'', JStr [CHR ''j'', CHR ''o'', CHR ''b'', CHR 0x0D, CHR ''1''])]]))
        [''10.0.0.5''] no_stores)
     = Some [example_record (JStr [CHR ''j'', CHR ''o'', CHR ''b'', CHR 0x0D, CHR ''1''])]
   \<and> batch_of (run_twice (example_world (single_page
        [finished_job [(''uuid'', JStr (replicate 131073 (CHR ''a'')))]]))
        [''10.0.0.5''] no_stores)
     = Some [example_record (JStr (replicate 131073 (CHR ''a'')))]"
  using rerun_no_uuid rerun_empty_log rerun_carriage_return rerun_long_cell
  by (intro conjI)

end
